theory Spec2Isabelle
  imports Main "HOL-Library.Word"
begin

section \<open>Connection management of clickhousedb\_fdw (clickhousedb\_connection.c)\<close>

text \<open>
  The development embeds \<^verbatim>\<open>clickhousedb_connection.c\<close>: the connection cache
  \<^verbatim>\<open>ConnectionHash\<close>, \<^verbatim>\<open>GetConnection\<close>, \<^verbatim>\<open>clickhouse_connect\<close>, the
  invalidation callback, the two transaction callbacks and
  \<^verbatim>\<open>pgfdw_reject_incomplete_xact_state_change\<close>.

  Conventions of the embedding:
  \<^item> a C pointer that may be \<^verbatim>\<open>NULL\<close> is an \<open>option\<close> (\<open>None\<close> is \<^verbatim>\<open>NULL\<close>);
  \<^item> \<^verbatim>\<open>elog(ERROR, ...)\<close> and \<^verbatim>\<open>ereport(ERROR, ...)\<close> leave the function through
    a non-local exit: the function returns \<open>Inl\<close> of the error, together with the
    state as it was mutated up to the raise;
  \<^item> the file-level statics are the fields of \<open>fdw_state\<close>; the calls made on the
    transports (connect, disconnect) are appended to its \<open>trace\<close>;
  \<^item> what the file calls but does not define (catalog lookups, the two transport
    connect functions), and what it reads without having written it (the contents of
    freshly allocated hash-table memory, the padding bytes of the automatic variable
    \<^verbatim>\<open>key\<close>), is a field of the parameter record \<open>backend\<close>;
  \<^item> \<^verbatim>\<open>elog(LOG, ...)\<close> and \<^verbatim>\<open>elog(DEBUG3, ...)\<close> only write to the server log and are
    left out.
\<close>

subsection \<open>Data\<close>

type_synonym Oid = "32 word"
type_synonym uint32 = "32 word"
type_synonym SubTransactionId = "32 word"

text \<open>
  The cache key as the table sees it. The table is created with \<^verbatim>\<open>HASH_BLOBS\<close> and
  \<^verbatim>\<open>keysize = sizeof(ConnCacheKey)\<close>, so it hashes and compares every byte of the
  key: the two members \<^verbatim>\<open>userid\<close> and \<^verbatim>\<open>read\<close>, and the padding bytes the
  compiler puts in the struct (three after a four-byte \<^verbatim>\<open>Oid\<close> and a one-byte
  \<^verbatim>\<open>bool\<close>; none, the empty list, only where the struct has no padding). Two keys
  are the same key of the table when all three fields are equal.
\<close>

record ConnCacheKey =
  userid :: Oid
  read :: bool
  padding :: "8 word list"

text \<open>
  \<^verbatim>\<open>ch_connection\<close>, passed by value: the transport handle \<^verbatim>\<open>conn\<close> and the pointer
  to the operation table \<^verbatim>\<open>methods\<close> (an address).
\<close>

record ch_connection =
  conn :: "nat option"
  methods :: nat

record ConnCacheEntry =
  key :: ConnCacheKey
  gate :: ch_connection
  xact_depth :: int
  have_error :: bool
  changing_xact_state :: bool
  invalidated :: bool
  entry_read :: bool
  server_hashvalue :: uint32
  mapping_hashvalue :: uint32

text \<open>
  \<^verbatim>\<open>ch_connection_details details = {"127.0.0.1", 8123, NULL, NULL, "default"}\<close>:
  the two \<^verbatim>\<open>NULL\<close> members are the user name and the password.
\<close>

record ch_connection_details =
  host :: string
  port :: int
  username :: "string option"
  password :: "string option"
  dbname :: string

text \<open>
  Modelled from the spec: the element type of the two option lists, which this file
  only hands to \<^verbatim>\<open>ExtractConnectionOptions\<close>. The spec has the lists as "ordered
  lists of named string key/value settings" that name fields of the descriptor; the
  names of the settings and the conversion of the port to a number belong to the option
  parser, so an element is a setting of one descriptor field, or a setting the
  descriptor has no field for.
\<close>

datatype DefElem =
  Opt_driver string
  | Opt_host string
  | Opt_port int
  | Opt_dbname string
  | Opt_username string
  | Opt_password string
  | Opt_other string string

record ForeignServer =
  fs_serverid :: Oid
  fs_servername :: string
  fs_options :: "DefElem list"

record UserMapping =
  um_umid :: Oid
  um_userid :: Oid
  um_serverid :: Oid
  um_options :: "DefElem list"

record FormData_pg_user_mapping =
  umuser :: Oid
  umserver :: Oid

datatype SysCacheIdentifier = FOREIGNSERVEROID | USERMAPPINGOID | OTHER_CACHE nat

datatype XactEvent =
  XACT_EVENT_COMMIT
  | XACT_EVENT_PARALLEL_COMMIT
  | XACT_EVENT_ABORT
  | XACT_EVENT_PARALLEL_ABORT
  | XACT_EVENT_PREPARE
  | XACT_EVENT_PRE_COMMIT
  | XACT_EVENT_PARALLEL_PRE_COMMIT
  | XACT_EVENT_PRE_PREPARE

datatype SubXactEvent =
  SUBXACT_EVENT_START_SUB
  | SUBXACT_EVENT_COMMIT_SUB
  | SUBXACT_EVENT_ABORT_SUB
  | SUBXACT_EVENT_PRE_COMMIT_SUB

subsection \<open>Errors\<close>

datatype sqlstate =
  ERRCODE_INTERNAL_ERROR
  | ERRCODE_CONNECTION_EXCEPTION
  | ERRCODE_OTHER string

datatype pg_error = PgError (err_code: sqlstate) (err_msg: string)

text \<open>\<^verbatim>\<open>elog(ERROR, msg)\<close> reports with the default code, the internal error.\<close>

definition elog_ERROR :: "string \<Rightarrow> pg_error" where
  "elog_ERROR msg = PgError ERRCODE_INTERNAL_ERROR msg"

subsection \<open>State and collaborators\<close>

datatype event =
  Ev_disconnect ch_connection
  | Ev_http_connect string
  | Ev_binary_connect ch_connection_details

datatype registration =
  Reg_XactCallback
  | Reg_SubXactCallback
  | Reg_SyscacheCallback SysCacheIdentifier

text \<open>
  The hash table holds its entries with the key inside each entry; \<open>None\<close> is the
  table before \<^verbatim>\<open>hash_create\<close>.
\<close>

type_synonym HTAB = "ConnCacheEntry list"

record fdw_state =
  ConnectionHash :: "HTAB option"
  xact_got_connection :: bool
  registered :: "registration list"
  trace :: "event list"

record backend =
  GetForeignServer :: "Oid \<Rightarrow> pg_error + ForeignServer"
  GetSysCacheHashValue1 :: "SysCacheIdentifier \<Rightarrow> Oid \<Rightarrow> uint32"
  SearchSysCache1 :: "SysCacheIdentifier \<Rightarrow> Oid \<Rightarrow> FormData_pg_user_mapping option"
  http_connect :: "string \<Rightarrow> pg_error + ch_connection"
  binary_connect :: "ch_connection_details \<Rightarrow> pg_error + ch_connection"
  hash_alloc :: ConnCacheEntry
  key_padding :: "8 word list"

subsection \<open>Formatting (\<^verbatim>\<open>psprintf\<close> with \<^verbatim>\<open>%u\<close> and \<^verbatim>\<open>%d\<close>)\<close>

fun show_nat :: "nat \<Rightarrow> string" where
  "show_nat n =
     (if n < 10 then [''0123456789'' ! n]
      else show_nat (n div 10) @ [''0123456789'' ! (n mod 10)])"

declare show_nat.simps [simp del]

definition show_int :: "int \<Rightarrow> string" where
  "show_int i = (if i < 0 then CHR ''-'' # show_nat (nat (- i)) else show_nat (nat i))"

subsection \<open>The connection factory\<close>

text \<open>
  Modelled from the spec: what \<^verbatim>\<open>ExtractConnectionOptions\<close> does with one element
  of its list. The function is called at lines 65--68 and defined outside this file.
  The spec has the descriptor "built by merging two option sources; later source's
  values override earlier's for any field named twice; unspecified fields keep
  defaults": an element that names a descriptor field overwrites that field through its
  out-parameter, and any other element leaves all six untouched.
\<close>

fun ExtractConnectionOption ::
  "string \<times> ch_connection_details \<Rightarrow> DefElem \<Rightarrow> string \<times> ch_connection_details" where
  "ExtractConnectionOption (driver, details) (Opt_driver v) = (v, details)"
| "ExtractConnectionOption (driver, details) (Opt_host v) = (driver, details\<lparr>host := v\<rparr>)"
| "ExtractConnectionOption (driver, details) (Opt_port v) = (driver, details\<lparr>port := v\<rparr>)"
| "ExtractConnectionOption (driver, details) (Opt_dbname v) = (driver, details\<lparr>dbname := v\<rparr>)"
| "ExtractConnectionOption (driver, details) (Opt_username v) =
     (driver, details\<lparr>username := Some v\<rparr>)"
| "ExtractConnectionOption (driver, details) (Opt_password v) =
     (driver, details\<lparr>password := Some v\<rparr>)"
| "ExtractConnectionOption (driver, details) (Opt_other n v) = (driver, details)"

text \<open>
  Modelled from the spec: \<^verbatim>\<open>ExtractConnectionOptions\<close>, defined outside this file,
  takes the elements of the list in order, so that of two elements naming one field the
  later wins.
\<close>

fun ExtractConnectionOptions ::
  "DefElem list \<Rightarrow> string \<times> ch_connection_details \<Rightarrow> string \<times> ch_connection_details" where
  "ExtractConnectionOptions [] acc = acc"
| "ExtractConnectionOptions (d # ds) acc =
     ExtractConnectionOptions ds (ExtractConnectionOption acc d)"

text \<open>The initial values of \<^verbatim>\<open>driver\<close> and \<^verbatim>\<open>details\<close> in \<^verbatim>\<open>clickhouse_connect\<close>.\<close>

definition default_details :: ch_connection_details where
  "default_details =
     \<lparr>host = ''127.0.0.1'', port = 8123, username = None, password = None,
      dbname = ''default''\<rparr>"

definition default_driver :: string where
  "default_driver = ''http''"

text \<open>
  The first half of \<^verbatim>\<open>clickhouse_connect\<close>: the server's options are extracted
  first, the user mapping's second, into the same variables.
\<close>

definition resolve_options :: "ForeignServer \<Rightarrow> UserMapping \<Rightarrow> string \<times> ch_connection_details" where
  "resolve_options server user =
     ExtractConnectionOptions (um_options user)
       (ExtractConnectionOptions (fs_options server) (default_driver, default_details))"

definition http_connstring :: "ch_connection_details \<Rightarrow> string" where
  "http_connstring details =
     (case (username details, password details) of
        (Some u, Some p) \<Rightarrow>
          ''http://'' @ u @ '':'' @ p @ ''@'' @ host details @ '':'' @ show_int (port details) @ ''/''
      | (Some u, None) \<Rightarrow>
          ''http://'' @ u @ ''@'' @ host details @ '':'' @ show_int (port details) @ ''/''
      | (None, _) \<Rightarrow>
          ''http://'' @ host details @ '':'' @ show_int (port details) @ ''/'')"

text \<open>
  \<^verbatim>\<open>clickhouse_connect\<close> returns the new gate or raises; the call it makes on a
  transport is appended to the trace, whether it succeeds or not.
\<close>

definition clickhouse_connect ::
  "backend \<Rightarrow> ForeignServer \<Rightarrow> UserMapping \<Rightarrow> event list \<Rightarrow> (pg_error + ch_connection) \<times> event list" where
  "clickhouse_connect be server user tr =
     (let (driver, details) = resolve_options server user in
      if driver = ''http'' then
        (http_connect be (http_connstring details), tr @ [Ev_http_connect (http_connstring details)])
      else if driver = ''binary'' then
        (binary_connect be details, tr @ [Ev_binary_connect details])
      else (Inl (elog_ERROR ''invalid ClickHouse connection driver''), tr))"

subsection \<open>The transaction state guard\<close>

text \<open>
  \<^verbatim>\<open>pgfdw_reject_incomplete_xact_state_change\<close> works on the entry its caller holds a
  pointer to: it takes the entry and the trace and returns both as it leaves them.
\<close>

definition pgfdw_reject_incomplete_xact_state_change ::
  "backend \<Rightarrow> ConnCacheEntry \<Rightarrow> event list \<Rightarrow> (pg_error + unit) \<times> ConnCacheEntry \<times> event list" where
  "pgfdw_reject_incomplete_xact_state_change be entry tr =
     (if conn (gate entry) = None \<or> \<not> changing_xact_state entry then (Inr (), entry, tr)
      else
        let tr' = tr @ [Ev_disconnect (gate entry)];
            entry' = entry\<lparr>gate := (gate entry)\<lparr>conn := None\<rparr>\<rparr>
        in case SearchSysCache1 be USERMAPPINGOID (userid (key entry')) of
             None \<Rightarrow>
               (Inl (elog_ERROR (''cache lookup failed for user mapping '' @
                                  show_nat (unat (userid (key entry'))))),
                entry', tr')
           | Some umform \<Rightarrow>
               (case GetForeignServer be (umserver umform) of
                  Inl err \<Rightarrow> (Inl err, entry', tr')
                | Inr server \<Rightarrow>
                    (Inl (PgError ERRCODE_CONNECTION_EXCEPTION
                            (''connection to server '' @ [CHR 0x22] @ fs_servername server @
                             [CHR 0x22] @ '' was lost'')),
                     entry', tr')))"

subsection \<open>The connection cache\<close>

text \<open>Lines 102--125: the table is created and the callbacks registered, once.\<close>

definition init_ConnectionHash :: "fdw_state \<Rightarrow> fdw_state" where
  "init_ConnectionHash s =
     (if ConnectionHash s = None then
        s\<lparr>ConnectionHash := Some [],
          registered := registered s @
            [Reg_XactCallback, Reg_SubXactCallback,
             Reg_SyscacheCallback FOREIGNSERVEROID, Reg_SyscacheCallback USERMAPPINGOID]\<rparr>
      else s)"

text \<open>
  The lookup of the table: the entry whose key has the same bytes, padding included.
\<close>

definition hash_find :: "HTAB \<Rightarrow> ConnCacheKey \<Rightarrow> ConnCacheEntry option" where
  "hash_find tbl k = find (\<lambda>e. key e = k) tbl"

text \<open>
  \<^verbatim>\<open>hash_search(ConnectionHash, &key, HASH_ENTER, &found)\<close>: the entry whose key has
  the bytes of \<^verbatim>\<open>key\<close>, or a new entry into which those bytes are copied and whose
  other members are whatever the allocated memory holds. The result is the entry,
  \<^verbatim>\<open>found\<close> and the table.
\<close>

definition hash_search_ENTER ::
  "backend \<Rightarrow> HTAB \<Rightarrow> ConnCacheKey \<Rightarrow> ConnCacheEntry \<times> bool \<times> HTAB" where
  "hash_search_ENTER be tbl k =
     (case hash_find tbl k of
        Some e \<Rightarrow> (e, True, tbl)
      | None \<Rightarrow> ((hash_alloc be)\<lparr>key := k\<rparr>, False, tbl @ [(hash_alloc be)\<lparr>key := k\<rparr>]))"

text \<open>Writing through the entry pointer: the table's entry of that key is replaced.\<close>

definition hash_store :: "HTAB \<Rightarrow> ConnCacheEntry \<Rightarrow> HTAB" where
  "hash_store tbl entry = map (\<lambda>e. if key e = key entry then entry else e) tbl"

text \<open>
  Lines 148--197 of \<^verbatim>\<open>GetConnection\<close>, on the entry the hash search returned.
\<close>

definition GetConnection_entry ::
  "backend \<Rightarrow> UserMapping \<Rightarrow> bool \<Rightarrow> ConnCacheEntry \<Rightarrow> event list \<Rightarrow>
   (pg_error + ch_connection) \<times> ConnCacheEntry \<times> event list" where
  "GetConnection_entry be user rd entry0 tr0 =
     (case pgfdw_reject_incomplete_xact_state_change be entry0 tr0 of
        (Inl err, entry1, tr1) \<Rightarrow> (Inl err, entry1, tr1)
      | (Inr _, entry1, tr1) \<Rightarrow>
          let (entry2, tr2) =
                (if conn (gate entry1) \<noteq> None \<and> invalidated entry1 \<and> xact_depth entry1 = 0
                 then (entry1\<lparr>gate := (gate entry1)\<lparr>conn := None\<rparr>\<rparr>,
                       tr1 @ [Ev_disconnect (gate entry1)])
                 else (entry1, tr1))
          in if conn (gate entry2) = None then
               (case GetForeignServer be (um_serverid user) of
                  Inl err \<Rightarrow> (Inl err, entry2, tr2)
                | Inr server \<Rightarrow>
                    let entry3 = entry2\<lparr>xact_depth := 0, have_error := False,
                                   changing_xact_state := False, invalidated := False,
                                   entry_read := rd,
                                   server_hashvalue :=
                                     GetSysCacheHashValue1 be FOREIGNSERVEROID (fs_serverid server),
                                   mapping_hashvalue :=
                                     GetSysCacheHashValue1 be USERMAPPINGOID (um_umid user)\<rparr>
                    in (case clickhouse_connect be server user tr2 of
                          (Inl err, tr3) \<Rightarrow> (Inl err, entry3, tr3)
                        | (Inr g, tr3) \<Rightarrow> (Inr g, entry3\<lparr>gate := g\<rparr>, tr3)))
             else (Inr (gate entry2), entry2, tr2))"

text \<open>
  \<^verbatim>\<open>GetConnection\<close>. The key is built in an automatic variable whose padding is not
  written (line 130: "Assume no pad bytes in key struct"); the entry is changed through
  the pointer the hash search returned, which is the write back into the table here.
\<close>

definition GetConnection ::
  "backend \<Rightarrow> UserMapping \<Rightarrow> bool \<Rightarrow> bool \<Rightarrow> fdw_state \<Rightarrow> (pg_error + ch_connection) \<times> fdw_state" where
  "GetConnection be user will_prep_stmt rd s =
     (let s1 = init_ConnectionHash s;
          s2 = s1\<lparr>xact_got_connection := True\<rparr>;
          k = \<lparr>userid = um_umid user, read = rd, padding = key_padding be\<rparr>;
          (entry, found, tbl) =
            hash_search_ENTER be (case ConnectionHash s2 of Some t \<Rightarrow> t | None \<Rightarrow> []) k;
          entry0 = (if \<not> found then entry\<lparr>gate := (gate entry)\<lparr>conn := None\<rparr>\<rparr> else entry);
          (res, entry', tr') = GetConnection_entry be user rd entry0 (trace s2)
      in (res, s2\<lparr>ConnectionHash := Some (hash_store tbl entry'), trace := tr'\<rparr>))"

subsection \<open>The callbacks\<close>

text \<open>Both transaction callbacks have an empty body.\<close>

definition pgfdw_xact_callback :: "XactEvent \<Rightarrow> fdw_state \<Rightarrow> fdw_state" where
  "pgfdw_xact_callback ev s = s"

definition pgfdw_subxact_callback ::
  "SubXactEvent \<Rightarrow> SubTransactionId \<Rightarrow> SubTransactionId \<Rightarrow> fdw_state \<Rightarrow> fdw_state" where
  "pgfdw_subxact_callback ev mySubid parentSubid s = s"

text \<open>The body of the scan loop of \<^verbatim>\<open>pgfdw_inval_callback\<close>, for one entry.\<close>

definition inval_entry :: "SysCacheIdentifier \<Rightarrow> uint32 \<Rightarrow> ConnCacheEntry \<Rightarrow> ConnCacheEntry" where
  "inval_entry cacheid hashvalue entry =
     (if conn (gate entry) = None then entry
      else if hashvalue = 0 \<or>
              (cacheid = FOREIGNSERVEROID \<and> server_hashvalue entry = hashvalue) \<or>
              (cacheid = USERMAPPINGOID \<and> mapping_hashvalue entry = hashvalue)
           then entry\<lparr>invalidated := True\<rparr>
           else entry)"

text \<open>The scan \<^verbatim>\<open>while ((entry = hash_seq_search(&scan)))\<close>.\<close>

fun inval_scan :: "SysCacheIdentifier \<Rightarrow> uint32 \<Rightarrow> HTAB \<Rightarrow> HTAB" where
  "inval_scan cacheid hashvalue [] = []"
| "inval_scan cacheid hashvalue (entry # rest) =
     inval_entry cacheid hashvalue entry # inval_scan cacheid hashvalue rest"

text \<open>
  \<^verbatim>\<open>pgfdw_inval_callback\<close> scans \<^verbatim>\<open>ConnectionHash\<close>, which "must exist already, if
  we're registered"; on a table that was never created the scan would dereference
  \<^verbatim>\<open>NULL\<close>, which is the result \<open>None\<close>. The \<^verbatim>\<open>Assert\<close> on \<^verbatim>\<open>cacheid\<close> is compiled
  out of a production build.
\<close>

definition pgfdw_inval_callback :: "SysCacheIdentifier \<Rightarrow> uint32 \<Rightarrow> fdw_state \<Rightarrow> fdw_state option" where
  "pgfdw_inval_callback cacheid hashvalue s =
     (case ConnectionHash s of
        None \<Rightarrow> None
      | Some tbl \<Rightarrow> Some (s\<lparr>ConnectionHash := Some (inval_scan cacheid hashvalue tbl)\<rparr>))"


subsection \<open>Delivery of transaction boundary events\<close>

text \<open>
  The transaction manager calls every registered callback at each boundary event;
  \<open>deliver\<close> is the call this file receives for one event, \<open>deliver_all\<close> for a
  sequence of events.
\<close>

datatype boundary_event =
  Xact XactEvent
  | SubXact SubXactEvent SubTransactionId SubTransactionId

fun deliver :: "boundary_event \<Rightarrow> fdw_state \<Rightarrow> fdw_state" where
  "deliver (Xact ev) s = pgfdw_xact_callback ev s"
| "deliver (SubXact ev mySubid parentSubid) s = pgfdw_subxact_callback ev mySubid parentSubid s"

fun deliver_all :: "boundary_event list \<Rightarrow> fdw_state \<Rightarrow> fdw_state" where
  "deliver_all [] s = s"
| "deliver_all (ev # evs) s = deliver_all evs (deliver ev s)"

subsection \<open>Reading the cache\<close>

text \<open>The entry the cache holds for a key, if any.\<close>

definition cache_entry :: "fdw_state \<Rightarrow> ConnCacheKey \<Rightarrow> ConnCacheEntry option" where
  "cache_entry s k = (case ConnectionHash s of None \<Rightarrow> None | Some tbl \<Rightarrow> hash_find tbl k)"

text \<open>
  The key \<^verbatim>\<open>GetConnection\<close> hands to the hash search: the variable \<^verbatim>\<open>key\<close> is
  declared at line 99 and never cleared, its two members are assigned at lines
  131--132, and its padding bytes are what the stack held.
\<close>

definition key_of :: "backend \<Rightarrow> UserMapping \<Rightarrow> bool \<Rightarrow> ConnCacheKey" where
  "key_of be user rd = \<lparr>userid = um_umid user, read = rd, padding = key_padding be\<rparr>"

text \<open>
  The entry as \<^verbatim>\<open>GetConnection\<close> holds it after line 145: the cached entry, or the
  newly entered one with only its key set and its handle cleared.
\<close>

definition entry_at_lookup :: "backend \<Rightarrow> fdw_state \<Rightarrow> ConnCacheKey \<Rightarrow> ConnCacheEntry" where
  "entry_at_lookup be s k =
     (case cache_entry s k of
        Some e \<Rightarrow> e
      | None \<Rightarrow> (hash_alloc be)\<lparr>key := k, gate := (gate (hash_alloc be))\<lparr>conn := None\<rparr>\<rparr>)"

text \<open>
  The entries for which \<^verbatim>\<open>GetConnection\<close> passes the sanity check and reaches line 172
  with the handle absent: no handle yet, or a handle that is torn down at line 154.
\<close>

definition needs_connect :: "ConnCacheEntry \<Rightarrow> bool" where
  "needs_connect e =
     (conn (gate e) = None \<or>
      (\<not> changing_xact_state e \<and> invalidated e \<and> xact_depth e = 0))"

text \<open>The events a call appended to the trace.\<close>

definition new_events :: "fdw_state \<Rightarrow> fdw_state \<Rightarrow> event list" where
  "new_events s s' = drop (length (trace s)) (trace s')"

text \<open>
  The table after the hash search of \<^verbatim>\<open>GetConnection\<close>: as it was, or with the
  newly entered entry at its end.
\<close>

definition table_entered :: "backend \<Rightarrow> fdw_state \<Rightarrow> ConnCacheKey \<Rightarrow> HTAB" where
  "table_entered be s k =
     (case ConnectionHash s of
        None \<Rightarrow> [(hash_alloc be)\<lparr>key := k\<rparr>]
      | Some tbl \<Rightarrow>
          (case hash_find tbl k of Some e \<Rightarrow> tbl | None \<Rightarrow> tbl @ [(hash_alloc be)\<lparr>key := k\<rparr>]))"

text \<open>An entry with its handle cleared, and the disconnect that clearing a handle costs.\<close>

definition torn_down :: "ConnCacheEntry \<Rightarrow> ConnCacheEntry" where
  "torn_down e = e\<lparr>gate := (gate e)\<lparr>conn := None\<rparr>\<rparr>"

definition teardown_events :: "ConnCacheEntry \<Rightarrow> event list" where
  "teardown_events e = (if conn (gate e) = None then [] else [Ev_disconnect (gate e)])"

text \<open>The entry after lines 177--187, with no handle.\<close>

definition reset_entry ::
  "backend \<Rightarrow> UserMapping \<Rightarrow> bool \<Rightarrow> ForeignServer \<Rightarrow> ConnCacheEntry \<Rightarrow> ConnCacheEntry" where
  "reset_entry be user rd server e =
     e\<lparr>gate := (gate e)\<lparr>conn := None\<rparr>, xact_depth := 0, have_error := False,
       changing_xact_state := False, invalidated := False, entry_read := rd,
       server_hashvalue := GetSysCacheHashValue1 be FOREIGNSERVEROID (fs_serverid server),
       mapping_hashvalue := GetSysCacheHashValue1 be USERMAPPINGOID (um_umid user)\<rparr>"



text \<open>
  The states of a backend: it starts with no table, and from then on the state changes
  only through \<^verbatim>\<open>GetConnection\<close> and the callbacks.
\<close>

inductive reachable :: "fdw_state \<Rightarrow> bool" where
  start:
    "reachable \<lparr>ConnectionHash = None, xact_got_connection = False, registered = [], trace = []\<rparr>"
| acquire:
    "reachable s \<Longrightarrow> reachable (snd (GetConnection be user will_prep_stmt rd s))"
| invalidate:
    "reachable s \<Longrightarrow> pgfdw_inval_callback cacheid hashvalue s = Some s' \<Longrightarrow> reachable s'"
| boundary:
    "reachable s \<Longrightarrow> reachable (deliver ev s)"

code_pred reachable .

subsection \<open>What the option lists say about a field\<close>

text \<open>
  The descriptor as the specification words it: for each field, the value an option
  list names for it (the last one, should it name the field twice), the user mapping's
  value before the server's, and the default where neither names the field.
\<close>

fun last_setting :: "(DefElem \<Rightarrow> 'a option) \<Rightarrow> DefElem list \<Rightarrow> 'a option" where
  "last_setting sel [] = None"
| "last_setting sel (d # ds) =
     (case last_setting sel ds of Some v \<Rightarrow> Some v | None \<Rightarrow> sel d)"

definition driver_of :: "DefElem \<Rightarrow> string option" where
  "driver_of d = (case d of Opt_driver v \<Rightarrow> Some v | _ \<Rightarrow> None)"

definition host_of :: "DefElem \<Rightarrow> string option" where
  "host_of d = (case d of Opt_host v \<Rightarrow> Some v | _ \<Rightarrow> None)"

definition port_of :: "DefElem \<Rightarrow> int option" where
  "port_of d = (case d of Opt_port v \<Rightarrow> Some v | _ \<Rightarrow> None)"

definition dbname_of :: "DefElem \<Rightarrow> string option" where
  "dbname_of d = (case d of Opt_dbname v \<Rightarrow> Some v | _ \<Rightarrow> None)"

definition username_of :: "DefElem \<Rightarrow> string option" where
  "username_of d = (case d of Opt_username v \<Rightarrow> Some v | _ \<Rightarrow> None)"

definition password_of :: "DefElem \<Rightarrow> string option" where
  "password_of d = (case d of Opt_password v \<Rightarrow> Some v | _ \<Rightarrow> None)"

definition user_wins :: "'a option \<Rightarrow> 'a option \<Rightarrow> 'a option" where
  "user_wins from_server from_user =
     (case from_user of Some v \<Rightarrow> Some v | None \<Rightarrow> from_server)"

definition or_default :: "'a \<Rightarrow> 'a option \<Rightarrow> 'a" where
  "or_default dflt v = (case v of Some x \<Rightarrow> x | None \<Rightarrow> dflt)"

subsection \<open>Concrete collaborators, entries and states\<close>

definition server_ch1 :: ForeignServer where
  "server_ch1 = \<lparr>fs_serverid = 3, fs_servername = ''ch1'', fs_options = [Opt_host ''A'']\<rparr>"

definition user_u7 :: UserMapping where
  "user_u7 = \<lparr>um_umid = 7, um_userid = 10, um_serverid = 3, um_options = [Opt_host ''B'']\<rparr>"

definition user_baddriver :: UserMapping where
  "user_baddriver =
     \<lparr>um_umid = 7, um_userid = 10, um_serverid = 3, um_options = [Opt_driver ''odbc'']\<rparr>"

definition gate_old :: ch_connection where
  "gate_old = \<lparr>conn = Some 1, methods = 100\<rparr>"

definition gate_new :: ch_connection where
  "gate_new = \<lparr>conn = Some 2, methods = 100\<rparr>"

definition entry_raw :: ConnCacheEntry where
  "entry_raw =
     \<lparr>key = \<lparr>userid = 0, read = False, padding = [9, 9, 9]\<rparr>,
      gate = \<lparr>conn = Some 99, methods = 0\<rparr>,
      xact_depth = 5, have_error = True, changing_xact_state = True, invalidated = True,
      entry_read = True, server_hashvalue = 1, mapping_hashvalue = 1\<rparr>"

definition entry_u7 :: ConnCacheEntry where
  "entry_u7 =
     \<lparr>key = \<lparr>userid = 7, read = False, padding = [0, 0, 0]\<rparr>, gate = gate_old,
      xact_depth = 0, have_error = False, changing_xact_state = False, invalidated = False,
      entry_read = False, server_hashvalue = 11, mapping_hashvalue = 22\<rparr>"

definition be_ok :: backend where
  "be_ok =
     \<lparr>GetForeignServer =
        (\<lambda>oid. if oid = 3 then Inr server_ch1
               else Inl (elog_ERROR ''cache lookup failed for foreign server'')),
      GetSysCacheHashValue1 =
        (\<lambda>c oid. case c of FOREIGNSERVEROID \<Rightarrow> 11 | USERMAPPINGOID \<Rightarrow> 22 | OTHER_CACHE n \<Rightarrow> 0),
      SearchSysCache1 =
        (\<lambda>c oid. if c = USERMAPPINGOID \<and> oid = 7 then Some \<lparr>umuser = 10, umserver = 3\<rparr>
                 else None),
      http_connect = (\<lambda>cs. Inr gate_new),
      binary_connect = (\<lambda>d. Inr gate_new),
      hash_alloc = entry_raw,
      key_padding = [0, 0, 0]\<rparr>"

definition be_down :: backend where
  "be_down =
     be_ok\<lparr>http_connect :=
             (\<lambda>cs. Inl (PgError (ERRCODE_OTHER ''08001'') ''could not connect to server''))\<rparr>"

definition be_mapping_dropped :: backend where
  "be_mapping_dropped = be_ok\<lparr>SearchSysCache1 := (\<lambda>c oid. None)\<rparr>"

definition be_server_dropped :: backend where
  "be_server_dropped =
     be_ok\<lparr>GetForeignServer :=
             (\<lambda>oid. Inl (elog_ERROR ''cache lookup failed for foreign server'')),
           GetSysCacheHashValue1 := (\<lambda>c oid. 99)\<rparr>"

definition gate_third :: ch_connection where
  "gate_third = \<lparr>conn = Some 3, methods = 100\<rparr>"

text \<open>The same collaborators at a call where the stack held other bytes.\<close>

definition be_other_padding :: backend where
  "be_other_padding = be_ok\<lparr>http_connect := (\<lambda>cs. Inr gate_third), key_padding := [1, 0, 0]\<rparr>"

definition state_of :: "ConnCacheEntry list \<Rightarrow> fdw_state" where
  "state_of tbl =
     \<lparr>ConnectionHash = Some tbl, xact_got_connection = False,
      registered = [Reg_XactCallback, Reg_SubXactCallback,
                    Reg_SyscacheCallback FOREIGNSERVEROID, Reg_SyscacheCallback USERMAPPINGOID],
      trace = []\<rparr>"

definition entry_connected :: ConnCacheEntry where
  "entry_connected =
     \<lparr>key = \<lparr>userid = 7, read = False, padding = [0, 0, 0]\<rparr>, gate = gate_new,
      xact_depth = 0, have_error = False, changing_xact_state = False, invalidated = False,
      entry_read = False, server_hashvalue = 11, mapping_hashvalue = 22\<rparr>"

text \<open>
  The state after the first \<^verbatim>\<open>GetConnection\<close> of a backend, and that state after a
  notification that invalidates its entry.
\<close>

definition state_connected :: fdw_state where
  "state_connected =
     (state_of [entry_connected])
       \<lparr>xact_got_connection := True, trace := [Ev_http_connect ''http://B:8123/'']\<rparr>"

definition state_invalidated :: fdw_state where
  "state_invalidated =
     (state_of [entry_connected\<lparr>invalidated := True\<rparr>])
       \<lparr>xact_got_connection := True, trace := [Ev_http_connect ''http://B:8123/'']\<rparr>"

definition state_fresh :: fdw_state where
  "state_fresh =
     \<lparr>ConnectionHash = None, xact_got_connection = False, registered = [], trace = []\<rparr>"


section \<open>Lemmas\<close>

subsection \<open>The hash table\<close>

lemma hash_find_key: "hash_find tbl k = Some e \<Longrightarrow> key e = k"
  unfolding hash_find_def by (induction tbl) (auto split: if_splits)

lemma hash_find_store_same:
  "hash_find tbl (key e') = Some e \<Longrightarrow> hash_find (hash_store tbl e') (key e') = Some e'"
  unfolding hash_find_def hash_store_def by (induction tbl) (auto split: if_splits)

lemma hash_find_store_other:
  "k \<noteq> key e' \<Longrightarrow> hash_find (hash_store tbl e') k = hash_find tbl k"
  unfolding hash_find_def hash_store_def by (induction tbl) auto

lemma hash_find_append_new:
  "hash_find tbl k = None \<Longrightarrow> hash_find (tbl @ [e]) k = (if key e = k then Some e else None)"
  unfolding hash_find_def by (induction tbl) (auto split: if_splits)

lemma hash_find_append_other:
  "key e \<noteq> k \<Longrightarrow> hash_find (tbl @ [e]) k = hash_find tbl k"
  unfolding hash_find_def by (induction tbl) auto

lemma hash_store_idem: "hash_store (hash_store tbl e) e = hash_store tbl e"
  unfolding hash_store_def by (induction tbl) auto

lemma key_entry_at_lookup: "key (entry_at_lookup be s k) = k"
  by (auto simp: entry_at_lookup_def cache_entry_def dest: hash_find_key split: option.splits)

lemma hash_find_table_entered:
  "\<exists>e. hash_find (table_entered be s k) k = Some e"
  by (auto simp: table_entered_def hash_find_append_new split: option.splits)
     (simp add: hash_find_def)

lemma hash_find_table_entered_other:
  "k' \<noteq> k \<Longrightarrow> hash_find (table_entered be s k) k' = cache_entry s k'"
  by (auto simp: table_entered_def cache_entry_def hash_find_append_other split: option.splits)
     (simp add: hash_find_def)

subsection \<open>The invalidation scan\<close>

lemma length_inval_scan: "length (inval_scan cacheid hashvalue tbl) = length tbl"
  by (induction tbl) simp_all

lemma nth_inval_scan:
  "i < length tbl \<Longrightarrow> inval_scan cacheid hashvalue tbl ! i = inval_entry cacheid hashvalue (tbl ! i)"
proof (induction tbl arbitrary: i)
  case Nil
  then show ?case by simp
next
  case (Cons e rest)
  then show ?case by (cases i) simp_all
qed

subsection \<open>The transaction callbacks\<close>

lemma deliver_id: "deliver ev s = s"
  by (cases ev) (simp_all add: pgfdw_xact_callback_def pgfdw_subxact_callback_def)

subsection \<open>The guard and the factory\<close>

lemma reject_ok:
  "conn (gate e) = None \<or> \<not> changing_xact_state e \<Longrightarrow>
   pgfdw_reject_incomplete_xact_state_change be e tr = (Inr (), e, tr)"
  by (auto simp: pgfdw_reject_incomplete_xact_state_change_def)

lemma reject_fail:
  "conn (gate e) \<noteq> None \<Longrightarrow> changing_xact_state e \<Longrightarrow>
   \<exists>err. pgfdw_reject_incomplete_xact_state_change be e tr =
     (Inl err, e\<lparr>gate := (gate e)\<lparr>conn := None\<rparr>\<rparr>, tr @ [Ev_disconnect (gate e)])"
  by (simp add: pgfdw_reject_incomplete_xact_state_change_def Let_def
      split: option.splits sum.splits)

lemma clickhouse_connect_trace:
  "clickhouse_connect be server user tr =
     (fst (clickhouse_connect be server user []), tr @ snd (clickhouse_connect be server user []))"
  by (simp add: clickhouse_connect_def Let_def split: prod.splits)


subsection \<open>The three ways through \<^verbatim>\<open>GetConnection\<close>\<close>

lemma entry_cases:
  obtains (rejected) "conn (gate e) \<noteq> None" "changing_xact_state e"
  | (hit) "conn (gate e) \<noteq> None" "\<not> changing_xact_state e"
      "\<not> (invalidated e \<and> xact_depth e = 0)"
  | (connect) "needs_connect e"
  unfolding needs_connect_def by atomize_elim auto

lemma GetConnection_entry_hit:
  assumes "conn (gate e) \<noteq> None" "\<not> changing_xact_state e"
    "\<not> (invalidated e \<and> xact_depth e = 0)"
  shows "GetConnection_entry be user rd e tr = (Inr (gate e), e, tr)"
  using assms by (auto simp: GetConnection_entry_def reject_ok)

lemma GetConnection_entry_rejected:
  assumes "conn (gate e) \<noteq> None" "changing_xact_state e"
  shows "\<exists>err. GetConnection_entry be user rd e tr =
     (Inl err, torn_down e, tr @ [Ev_disconnect (gate e)])"
proof -
  from reject_fail [OF assms] obtain err where
    "pgfdw_reject_incomplete_xact_state_change be e tr =
     (Inl err, e\<lparr>gate := (gate e)\<lparr>conn := None\<rparr>\<rparr>, tr @ [Ev_disconnect (gate e)])"
    by blast
  then show ?thesis by (simp add: GetConnection_entry_def torn_down_def)
qed

lemma GetConnection_entry_to_line_172:
  assumes "needs_connect e"
  shows "GetConnection_entry be user rd e tr =
     (case GetForeignServer be (um_serverid user) of
        Inl err \<Rightarrow> (Inl err, torn_down e, tr @ teardown_events e)
      | Inr server \<Rightarrow>
          (case clickhouse_connect be server user (tr @ teardown_events e) of
             (Inl err, tr3) \<Rightarrow> (Inl err, reset_entry be user rd server e, tr3)
           | (Inr g, tr3) \<Rightarrow> (Inr g, (reset_entry be user rd server e)\<lparr>gate := g\<rparr>, tr3)))"
proof (cases "conn (gate e) = None")
  case True
  then have rej: "pgfdw_reject_incomplete_xact_state_change be e tr = (Inr (), e, tr)"
    by (simp add: reject_ok)
  have same: "torn_down e = e" "teardown_events e = []"
    "reset_entry be user rd server e =
       e\<lparr>xact_depth := 0, have_error := False,
         changing_xact_state := False, invalidated := False, entry_read := rd,
         server_hashvalue := GetSysCacheHashValue1 be FOREIGNSERVEROID (fs_serverid server),
         mapping_hashvalue := GetSysCacheHashValue1 be USERMAPPINGOID (um_umid user)\<rparr>"
    for server
    using True by (simp_all add: torn_down_def teardown_events_def reset_entry_def)
  show ?thesis
    using True
    by (simp add: GetConnection_entry_def rej same Let_def split: sum.splits prod.splits)
next
  case False
  with assms have st: "\<not> changing_xact_state e" "invalidated e" "xact_depth e = 0"
    by (simp_all add: needs_connect_def)
  then have rej: "pgfdw_reject_incomplete_xact_state_change be e tr = (Inr (), e, tr)"
    by (simp add: reject_ok)
  from False obtain h where h: "conn (gate e) = Some h"
    by auto
  show ?thesis
    using st
    by (simp add: GetConnection_entry_def rej torn_down_def teardown_events_def
        reset_entry_def Let_def h split: sum.splits prod.splits)
qed

lemma GetConnection_entry_key:
  assumes "GetConnection_entry be user rd e tr = (res, e', tr')"
  shows "key e' = key e"
proof (cases e rule: entry_cases)
  case rejected
  from GetConnection_entry_rejected [OF rejected, of be user rd tr] assms
  show ?thesis by (auto simp: torn_down_def)
next
  case hit
  from GetConnection_entry_hit [OF hit, of be user rd tr] assms
  show ?thesis by simp
next
  case connect
  from GetConnection_entry_to_line_172 [OF connect, of be user rd tr] assms
  show ?thesis
    by (auto simp: torn_down_def reset_entry_def split: sum.splits prod.splits)
qed

lemma GetConnection_unfold:
  assumes "GetConnection_entry be user rd (entry_at_lookup be s (key_of be user rd)) (trace s) =
             (res, e', tr')"
  shows "GetConnection be user wp rd s =
           (res, (init_ConnectionHash s)\<lparr>xact_got_connection := True,
                   ConnectionHash := Some (hash_store (table_entered be s (key_of be user rd)) e'),
                   trace := tr'\<rparr>)"
proof (cases "ConnectionHash s")
  case None
  then show ?thesis
    using assms
    by (simp add: GetConnection_def init_ConnectionHash_def hash_search_ENTER_def
        hash_find_def key_of_def entry_at_lookup_def cache_entry_def table_entered_def)
next
  case (Some tbl)
  show ?thesis
  proof (cases "hash_find tbl (key_of be user rd)")
    case None
    then show ?thesis
      using assms Some
      by (simp add: GetConnection_def init_ConnectionHash_def hash_search_ENTER_def
          key_of_def entry_at_lookup_def cache_entry_def table_entered_def)
  next
    case (Some e)
    then show ?thesis
      using assms \<open>ConnectionHash s = Some tbl\<close>
      by (simp add: GetConnection_def init_ConnectionHash_def hash_search_ENTER_def
          key_of_def entry_at_lookup_def cache_entry_def table_entered_def)
  qed
qed

lemma GetConnection_result:
  assumes "GetConnection_entry be user rd (entry_at_lookup be s (key_of be user rd)) (trace s) =
             (res, e', tr')"
  shows "fst (GetConnection be user wp rd s) = res"
    and "cache_entry (snd (GetConnection be user wp rd s)) (key_of be user rd) = Some e'"
    and "trace (snd (GetConnection be user wp rd s)) = tr'"
    and "k \<noteq> key_of be user rd \<Longrightarrow>
         cache_entry (snd (GetConnection be user wp rd s)) k = cache_entry s k"
proof -
  note unf = GetConnection_unfold [OF assms, of wp]
  have k: "key e' = key_of be user rd"
    using GetConnection_entry_key [OF assms] by (simp add: key_entry_at_lookup)
  show "fst (GetConnection be user wp rd s) = res"
    by (simp add: unf)
  show "trace (snd (GetConnection be user wp rd s)) = tr'"
    by (simp add: unf)
  from hash_find_table_entered [of be s "key_of be user rd"] obtain e where
    "hash_find (table_entered be s (key_of be user rd)) (key e') = Some e"
    unfolding k by blast
  then have "hash_find (hash_store (table_entered be s (key_of be user rd)) e') (key e') = Some e'"
    by (rule hash_find_store_same)
  then show "cache_entry (snd (GetConnection be user wp rd s)) (key_of be user rd) = Some e'"
    by (simp add: unf cache_entry_def k)
  show "cache_entry (snd (GetConnection be user wp rd s)) k = cache_entry s k"
    if "k \<noteq> key_of be user rd"
    using that
    by (simp add: unf cache_entry_def hash_find_store_other k hash_find_table_entered_other)
qed


subsection \<open>Cache hits\<close>

lemma entry_at_lookup_cached: "cache_entry s k = Some e \<Longrightarrow> entry_at_lookup be s k = e"
  by (simp add: entry_at_lookup_def)

lemma new_events_append: "trace s1 = trace s @ evs \<Longrightarrow> new_events s s1 = evs"
  by (simp add: new_events_def)

lemma GetConnection_entry_success:
  assumes "GetConnection_entry be user rd e tr = (Inr g, e', tr')" "conn g \<noteq> None"
  shows "gate e' = g \<and> \<not> changing_xact_state e' \<and> \<not> (invalidated e' \<and> xact_depth e' = 0)"
proof (cases e rule: entry_cases)
  case rejected
  from GetConnection_entry_rejected [OF rejected, of be user rd tr] assms
  show ?thesis by auto
next
  case hit
  from GetConnection_entry_hit [OF hit, of be user rd tr] assms hit
  show ?thesis by auto
next
  case connect
  from GetConnection_entry_to_line_172 [OF connect, of be user rd tr] assms
  show ?thesis
    by (auto simp: reset_entry_def split: sum.splits prod.splits)
qed

lemma GetConnection_cases:
  obtains res e' tr' where
    "GetConnection_entry be user rd (entry_at_lookup be s (key_of be user rd)) (trace s) = (res, e', tr')"
  by (cases "GetConnection_entry be user rd (entry_at_lookup be s (key_of be user rd)) (trace s)")

lemma table_entered_found:
  "ConnectionHash s = Some tbl \<Longrightarrow> hash_find tbl k = Some e \<Longrightarrow> table_entered be s k = tbl"
  by (simp add: table_entered_def)

lemma init_ConnectionHash_Some: "ConnectionHash s = Some tbl \<Longrightarrow> init_ConnectionHash s = s"
  by (simp add: init_ConnectionHash_def)

text \<open>
  When the padding bytes of the key are the same at the later call, the later call finds
  the entry and is a hit.
\<close>

lemma GetConnection_hit_fixpoint:
  assumes "GetConnection be user wp rd s = (Inr g, s1)" "conn g \<noteq> None"
    "key_padding be2 = key_padding be"
  shows "GetConnection be2 user wp2 rd s1 = (Inr g, s1)"
proof -
  let ?k = "key_of be user rd"
  have k2: "key_of be2 user rd = ?k"
    by (simp add: key_of_def assms(3))
  obtain res e' tr' where
    ent: "GetConnection_entry be user rd (entry_at_lookup be s ?k) (trace s) = (res, e', tr')"
    by (rule GetConnection_cases)
  note unf = GetConnection_unfold [OF ent, of wp]
  from unf assms(1) have res: "res = Inr g"
    and s1: "s1 = (init_ConnectionHash s)\<lparr>xact_got_connection := True,
                   ConnectionHash := Some (hash_store (table_entered be s ?k) e'),
                   trace := tr'\<rparr>"
    by simp_all
  from GetConnection_entry_success [OF ent [unfolded res] assms(2)]
  have e': "gate e' = g" "\<not> changing_xact_state e'" "\<not> (invalidated e' \<and> xact_depth e' = 0)"
    by simp_all
  have k: "key e' = ?k"
    using GetConnection_entry_key [OF ent] by (simp add: key_entry_at_lookup)
  from hash_find_table_entered [of be s ?k] obtain e0 where
    "hash_find (table_entered be s ?k) (key e') = Some e0"
    unfolding k by blast
  then have found: "hash_find (hash_store (table_entered be s ?k) e') ?k = Some e'"
    using hash_find_store_same [of "table_entered be s ?k" e' e0] by (simp add: k)
  have tbl1: "ConnectionHash s1 = Some (hash_store (table_entered be s ?k) e')"
    by (simp add: s1)
  have look: "entry_at_lookup be2 s1 ?k = e'"
    by (simp add: entry_at_lookup_def cache_entry_def tbl1 found)
  have hit: "GetConnection_entry be2 user rd (entry_at_lookup be2 s1 ?k) (trace s1) =
      (Inr (gate e'), e', trace s1)"
    unfolding look using assms(2) e' by (intro GetConnection_entry_hit) simp_all
  have ent1: "table_entered be2 s1 ?k = hash_store (table_entered be s ?k) e'"
    using tbl1 found by (rule table_entered_found)
  have "GetConnection be2 user wp2 rd s1 =
      (Inr (gate e'), (init_ConnectionHash s1)\<lparr>xact_got_connection := True,
         ConnectionHash := Some (hash_store (table_entered be2 s1 ?k) e'),
         trace := trace s1\<rparr>)"
    using GetConnection_unfold [of be2 user rd s1 "Inr (gate e')" e' "trace s1" wp2] hit
    by (simp add: k2)
  also have "init_ConnectionHash s1 = s1"
    by (rule init_ConnectionHash_Some [OF tbl1])
  also have "s1\<lparr>xact_got_connection := True,
         ConnectionHash := Some (hash_store (table_entered be2 s1 ?k) e'),
         trace := trace s1\<rparr> = s1"
    unfolding ent1 hash_store_idem by (simp add: s1)
  finally show ?thesis by (simp add: e')
qed

subsection \<open>What holds of every reachable state\<close>










subsection \<open>The teardown step\<close>



subsection \<open>A call that reaches the factory\<close>

lemma GetConnection_connects:
  assumes "needs_connect (entry_at_lookup be s (key_of be user rd))"
    and "GetForeignServer be (um_serverid user) = Inr server"
    and "GetConnection be user wp rd s = (res, s1)"
  shows "res = fst (clickhouse_connect be server user [])"
    and "cache_entry s1 (key_of be user rd) =
           Some (case res of
                   Inl err \<Rightarrow> reset_entry be user rd server (entry_at_lookup be s (key_of be user rd))
                 | Inr g \<Rightarrow>
                     (reset_entry be user rd server (entry_at_lookup be s (key_of be user rd)))
                       \<lparr>gate := g\<rparr>)"
    and "new_events s s1 =
           teardown_events (entry_at_lookup be s (key_of be user rd)) @
           snd (clickhouse_connect be server user [])"
proof -
  let ?k = "key_of be user rd"
  let ?e = "entry_at_lookup be s ?k"
  obtain r evs where cc: "clickhouse_connect be server user [] = (r, evs)"
    by (cases "clickhouse_connect be server user []")
  have cc': "clickhouse_connect be server user (trace s @ teardown_events ?e) =
      (r, trace s @ teardown_events ?e @ evs)"
    using clickhouse_connect_trace [of be server user "trace s @ teardown_events ?e"]
    by (simp add: cc)
  have ent: "GetConnection_entry be user rd ?e (trace s) =
      (r, (case r of Inl err \<Rightarrow> reset_entry be user rd server ?e
                   | Inr g \<Rightarrow> (reset_entry be user rd server ?e)\<lparr>gate := g\<rparr>),
       trace s @ teardown_events ?e @ evs)"
    by (cases r) (simp_all add: GetConnection_entry_to_line_172 [OF assms(1)] assms(2) cc')
  from GetConnection_result(1-3) [OF ent, of wp] assms(3)
  have r: "r = res"
    and e1: "cache_entry s1 ?k =
      Some (case r of Inl err \<Rightarrow> reset_entry be user rd server ?e
                    | Inr g \<Rightarrow> (reset_entry be user rd server ?e)\<lparr>gate := g\<rparr>)"
    and tr1: "trace s1 = trace s @ teardown_events ?e @ evs"
    by simp_all
  show "res = fst (clickhouse_connect be server user [])"
    using r cc by simp
  show "cache_entry s1 ?k =
      Some (case res of Inl err \<Rightarrow> reset_entry be user rd server ?e
                      | Inr g \<Rightarrow> (reset_entry be user rd server ?e)\<lparr>gate := g\<rparr>)"
    using e1 r by simp
  show "new_events s s1 = teardown_events ?e @ snd (clickhouse_connect be server user [])"
    using tr1 cc by (simp add: new_events_def)
qed

subsection \<open>Extraction of the options\<close>

lemma extract_driver:
  "fst (ExtractConnectionOptions ds acc) = or_default (fst acc) (last_setting driver_of ds)"
proof (induction ds arbitrary: acc)
  case Nil
  show ?case by (simp add: or_default_def)
next
  case (Cons d ds)
  obtain driver details where acc: "acc = (driver, details)" by (cases acc)
  show ?case
    unfolding acc
    by (cases d) (simp_all add: Cons.IH or_default_def driver_of_def split: option.splits)
qed

lemma extract_host:
  "host (snd (ExtractConnectionOptions ds acc)) =
     or_default (host (snd acc)) (last_setting host_of ds)"
proof (induction ds arbitrary: acc)
  case Nil
  show ?case by (simp add: or_default_def)
next
  case (Cons d ds)
  obtain driver details where acc: "acc = (driver, details)" by (cases acc)
  show ?case
    unfolding acc
    by (cases d) (simp_all add: Cons.IH or_default_def host_of_def split: option.splits)
qed

lemma extract_port:
  "port (snd (ExtractConnectionOptions ds acc)) =
     or_default (port (snd acc)) (last_setting port_of ds)"
proof (induction ds arbitrary: acc)
  case Nil
  show ?case by (simp add: or_default_def)
next
  case (Cons d ds)
  obtain driver details where acc: "acc = (driver, details)" by (cases acc)
  show ?case
    unfolding acc
    by (cases d) (simp_all add: Cons.IH or_default_def port_of_def split: option.splits)
qed

lemma extract_dbname:
  "dbname (snd (ExtractConnectionOptions ds acc)) =
     or_default (dbname (snd acc)) (last_setting dbname_of ds)"
proof (induction ds arbitrary: acc)
  case Nil
  show ?case by (simp add: or_default_def)
next
  case (Cons d ds)
  obtain driver details where acc: "acc = (driver, details)" by (cases acc)
  show ?case
    unfolding acc
    by (cases d) (simp_all add: Cons.IH or_default_def dbname_of_def split: option.splits)
qed

lemma extract_username:
  "username (snd (ExtractConnectionOptions ds acc)) =
     user_wins (username (snd acc)) (last_setting username_of ds)"
proof (induction ds arbitrary: acc)
  case Nil
  show ?case by (simp add: user_wins_def)
next
  case (Cons d ds)
  obtain driver details where acc: "acc = (driver, details)" by (cases acc)
  show ?case
    unfolding acc
    by (cases d) (simp_all add: Cons.IH user_wins_def username_of_def split: option.splits)
qed

lemma extract_password:
  "password (snd (ExtractConnectionOptions ds acc)) =
     user_wins (password (snd acc)) (last_setting password_of ds)"
proof (induction ds arbitrary: acc)
  case Nil
  show ?case by (simp add: user_wins_def)
next
  case (Cons d ds)
  obtain driver details where acc: "acc = (driver, details)" by (cases acc)
  show ?case
    unfolding acc
    by (cases d) (simp_all add: Cons.IH user_wins_def password_of_def split: option.splits)
qed

lemma or_default_twice:
  "or_default (or_default dflt a) b = or_default dflt (user_wins a b)"
  by (simp add: or_default_def user_wins_def split: option.splits)

lemma user_wins_None: "user_wins (user_wins None a) b = user_wins a b"
  by (simp add: user_wins_def split: option.splits)

subsection \<open>Evaluation on the concrete states\<close>

lemmas eval_defs = GetConnection_def key_of_def cache_entry_def init_ConnectionHash_def hash_search_ENTER_def hash_find_def
  hash_store_def GetConnection_entry_def pgfdw_reject_incomplete_xact_state_change_def
  clickhouse_connect_def resolve_options_def default_driver_def default_details_def
  http_connstring_def show_int_def show_nat.simps elog_ERROR_def
  be_ok_def be_down_def be_mapping_dropped_def be_server_dropped_def be_other_padding_def
  gate_third_def server_ch1_def user_u7_def user_baddriver_def
  gate_old_def gate_new_def entry_raw_def entry_u7_def entry_connected_def state_of_def
  state_fresh_def state_connected_def state_invalidated_def

lemma first_acquire:
  "GetConnection be_ok user_u7 False False state_fresh = (Inr gate_new, state_connected)"
  by (simp add: eval_defs)

lemma reachable_state_connected: "reachable state_connected"
proof -
  have "reachable state_fresh"
    unfolding state_fresh_def by (rule reachable.start)
  then have "reachable (snd (GetConnection be_ok user_u7 False False state_fresh))"
    by (rule reachable.acquire)
  then show ?thesis
    by (simp only: first_acquire snd_conv)
qed

lemma reachable_state_invalidated: "reachable state_invalidated"
proof -
  have "pgfdw_inval_callback FOREIGNSERVEROID 11 state_connected = Some state_invalidated"
    by (simp add: pgfdw_inval_callback_def inval_entry_def eval_defs)
  with reachable_state_connected show ?thesis
    by (rule reachable.invalidate)
qed

section \<open>The claims\<close>

subsection \<open>The transaction callbacks\<close>

text \<open>
  C1 (as amended). For every local-transaction or subtransaction boundary event delivered
  to the registered callbacks, at any nesting depth, the core does nothing: both
  callbacks, and so every sequence of deliveries, return the state as it was. No
  entry's transaction depth changes and nothing is sent to a remote session.
\<close>

theorem xact_callbacks_leave_state_unchanged:
  "pgfdw_xact_callback ev s = s \<and>
   pgfdw_subxact_callback sev mySubid parentSubid s = s \<and>
   deliver_all evs s = s"
proof (intro conjI)
  show "pgfdw_xact_callback ev s = s"
    by (simp add: pgfdw_xact_callback_def)
  show "pgfdw_subxact_callback sev mySubid parentSubid s = s"
    by (simp add: pgfdw_subxact_callback_def)
  show "deliver_all evs s = s"
    by (induction evs) (simp_all add: deliver_id)
qed

text \<open>
  C1 as stated fails: an entry at depth 2 is invalidated; the nested commit and the
  outer commit are delivered; the depth is still 2, and the next
  \<^verbatim>\<open>GetConnection\<close> hands out the stale gate without tearing it down.
\<close>

theorem depth_unchanged_by_commits_counterexample:
  "pgfdw_inval_callback FOREIGNSERVEROID 11 (state_of [entry_u7\<lparr>xact_depth := 2\<rparr>]) =
     Some (state_of [entry_u7\<lparr>xact_depth := 2, invalidated := True\<rparr>]) \<and>
   map xact_depth
     (case ConnectionHash
             (deliver_all [SubXact SUBXACT_EVENT_COMMIT_SUB 2 1, Xact XACT_EVENT_COMMIT]
                (state_of [entry_u7\<lparr>xact_depth := 2, invalidated := True\<rparr>])) of
        Some tbl \<Rightarrow> tbl | None \<Rightarrow> []) = [2] \<and>
   GetConnection be_ok user_u7 False False
     (deliver_all [SubXact SUBXACT_EVENT_COMMIT_SUB 2 1, Xact XACT_EVENT_COMMIT]
        (state_of [entry_u7\<lparr>xact_depth := 2, invalidated := True\<rparr>])) =
     (Inr gate_old,
      (state_of [entry_u7\<lparr>xact_depth := 2, invalidated := True\<rparr>])\<lparr>xact_got_connection := True\<rparr>)"
  by (simp add: pgfdw_inval_callback_def state_of_def inval_entry_def entry_u7_def gate_old_def
      pgfdw_xact_callback_def pgfdw_subxact_callback_def GetConnection_def
      init_ConnectionHash_def hash_search_ENTER_def hash_find_def hash_store_def
      GetConnection_entry_def pgfdw_reject_incomplete_xact_state_change_def user_u7_def
      be_ok_def)

subsection \<open>The transaction state guard\<close>

text \<open>
  C2 (as amended). If the entry has no gate or \<^verbatim>\<open>changing_xact_state\<close> is false,
  the sanity check returns with no action. Otherwise it always disconnects the gate,
  sets it absent and raises an error, never returning normally and never reconnecting:
  the connection-exception error naming the server (connection to server "X" was lost)
  when the entry's user mapping and its server are found in the catalog, and the error
  "cache lookup failed for user mapping N" when the user mapping is not found.
\<close>

theorem reject_incomplete_xact_state_change_outcomes:
  "(conn (gate entry) = None \<or> \<not> changing_xact_state entry \<longrightarrow>
      pgfdw_reject_incomplete_xact_state_change be entry tr = (Inr (), entry, tr)) \<and>
   (conn (gate entry) \<noteq> None \<and> changing_xact_state entry \<longrightarrow>
      (\<exists>err. pgfdw_reject_incomplete_xact_state_change be entry tr =
                (Inl err, entry\<lparr>gate := (gate entry)\<lparr>conn := None\<rparr>\<rparr>,
                 tr @ [Ev_disconnect (gate entry)]) \<and>
             (\<forall>um server.
                SearchSysCache1 be USERMAPPINGOID (userid (key entry)) = Some um \<and>
                GetForeignServer be (umserver um) = Inr server \<longrightarrow>
                err = PgError ERRCODE_CONNECTION_EXCEPTION
                        (''connection to server '' @ [CHR 0x22] @ fs_servername server @
                         [CHR 0x22] @ '' was lost'')) \<and>
             (SearchSysCache1 be USERMAPPINGOID (userid (key entry)) = None \<longrightarrow>
                err = PgError ERRCODE_INTERNAL_ERROR
                        (''cache lookup failed for user mapping '' @
                         show_nat (unat (userid (key entry)))))))"
proof (intro conjI impI)
  assume "conn (gate entry) = None \<or> \<not> changing_xact_state entry"
  then show "pgfdw_reject_incomplete_xact_state_change be entry tr = (Inr (), entry, tr)"
    by (rule reject_ok)
next
  assume bad: "conn (gate entry) \<noteq> None \<and> changing_xact_state entry"
  let ?entry' = "entry\<lparr>gate := (gate entry)\<lparr>conn := None\<rparr>\<rparr>"
  let ?tr' = "tr @ [Ev_disconnect (gate entry)]"
  show "\<exists>err. pgfdw_reject_incomplete_xact_state_change be entry tr = (Inl err, ?entry', ?tr') \<and>
             (\<forall>um server.
                SearchSysCache1 be USERMAPPINGOID (userid (key entry)) = Some um \<and>
                GetForeignServer be (umserver um) = Inr server \<longrightarrow>
                err = PgError ERRCODE_CONNECTION_EXCEPTION
                        (''connection to server '' @ [CHR 0x22] @ fs_servername server @
                         [CHR 0x22] @ '' was lost'')) \<and>
             (SearchSysCache1 be USERMAPPINGOID (userid (key entry)) = None \<longrightarrow>
                err = PgError ERRCODE_INTERNAL_ERROR
                        (''cache lookup failed for user mapping '' @
                         show_nat (unat (userid (key entry)))))"
  proof (cases "SearchSysCache1 be USERMAPPINGOID (userid (key entry))")
    case None
    with bad show ?thesis
      by (simp add: pgfdw_reject_incomplete_xact_state_change_def elog_ERROR_def)
  next
    case (Some um)
    show ?thesis
    proof (cases "GetForeignServer be (umserver um)")
      case (Inl e)
      with bad Some show ?thesis
        by (simp add: pgfdw_reject_incomplete_xact_state_change_def)
    next
      case (Inr server)
      with bad Some show ?thesis
        by (simp add: pgfdw_reject_incomplete_xact_state_change_def)
    qed
  qed
qed

theorem reject_incomplete_xact_state_change_outcomes_witness:
  "(conn (gate entry_u7) = None \<or> \<not> changing_xact_state entry_u7) \<and>
   pgfdw_reject_incomplete_xact_state_change be_ok entry_u7 [] = (Inr (), entry_u7, []) \<and>
   (conn (gate (entry_u7\<lparr>changing_xact_state := True\<rparr>)) \<noteq> None \<and>
    changing_xact_state (entry_u7\<lparr>changing_xact_state := True\<rparr>)) \<and>
   SearchSysCache1 be_ok USERMAPPINGOID (userid (key (entry_u7\<lparr>changing_xact_state := True\<rparr>))) =
     Some \<lparr>umuser = 10, umserver = 3\<rparr> \<and>
   GetForeignServer be_ok (umserver \<lparr>umuser = 10, umserver = 3\<rparr>) = Inr server_ch1 \<and>
   pgfdw_reject_incomplete_xact_state_change be_ok (entry_u7\<lparr>changing_xact_state := True\<rparr>) [] =
     (Inl (PgError ERRCODE_CONNECTION_EXCEPTION
             (''connection to server '' @ [CHR 0x22] @ ''ch1'' @ [CHR 0x22] @ '' was lost'')),
      entry_u7\<lparr>changing_xact_state := True, gate := \<lparr>conn = None, methods = 100\<rparr>\<rparr>,
      [Ev_disconnect gate_old]) \<and>
   SearchSysCache1 be_mapping_dropped USERMAPPINGOID
     (userid (key (entry_u7\<lparr>changing_xact_state := True\<rparr>))) = None \<and>
   fst (pgfdw_reject_incomplete_xact_state_change be_mapping_dropped
          (entry_u7\<lparr>changing_xact_state := True\<rparr>) []) =
     Inl (PgError ERRCODE_INTERNAL_ERROR ''cache lookup failed for user mapping 7'')"
proof -
  let ?bad = "entry_u7\<lparr>changing_xact_state := True\<rparr>"
  have sane: "conn (gate entry_u7) = None \<or> \<not> changing_xact_state entry_u7"
    by (simp add: entry_u7_def)
  have insane: "conn (gate ?bad) \<noteq> None \<and> changing_xact_state ?bad"
    by (simp add: entry_u7_def gate_old_def)
  have um: "SearchSysCache1 be_ok USERMAPPINGOID (userid (key ?bad)) =
      Some \<lparr>umuser = 10, umserver = 3\<rparr>"
    by (simp add: be_ok_def entry_u7_def)
  have srv: "GetForeignServer be_ok (umserver \<lparr>umuser = 10, umserver = 3\<rparr>) = Inr server_ch1"
    by (simp add: be_ok_def)
  from reject_incomplete_xact_state_change_outcomes [of entry_u7 be_ok "[]"] sane
  have first: "pgfdw_reject_incomplete_xact_state_change be_ok entry_u7 [] = (Inr (), entry_u7, [])"
    by blast
  from reject_incomplete_xact_state_change_outcomes [of ?bad be_ok "[]"] insane
  obtain err where
    call: "pgfdw_reject_incomplete_xact_state_change be_ok ?bad [] =
            (Inl err, ?bad\<lparr>gate := (gate ?bad)\<lparr>conn := None\<rparr>\<rparr>, [] @ [Ev_disconnect (gate ?bad)])"
    and named: "\<forall>um server.
                SearchSysCache1 be_ok USERMAPPINGOID (userid (key ?bad)) = Some um \<and>
                GetForeignServer be_ok (umserver um) = Inr server \<longrightarrow>
                err = PgError ERRCODE_CONNECTION_EXCEPTION
                        (''connection to server '' @ [CHR 0x22] @ fs_servername server @
                         [CHR 0x22] @ '' was lost'')"
    by blast
  from named um srv have "err = PgError ERRCODE_CONNECTION_EXCEPTION
      (''connection to server '' @ [CHR 0x22] @ fs_servername server_ch1 @ [CHR 0x22] @ '' was lost'')"
    by blast
  with call have second:
    "pgfdw_reject_incomplete_xact_state_change be_ok ?bad [] =
     (Inl (PgError ERRCODE_CONNECTION_EXCEPTION
             (''connection to server '' @ [CHR 0x22] @ ''ch1'' @ [CHR 0x22] @ '' was lost'')),
      entry_u7\<lparr>changing_xact_state := True, gate := \<lparr>conn = None, methods = 100\<rparr>\<rparr>,
      [Ev_disconnect gate_old])"
    by (simp add: server_ch1_def entry_u7_def gate_old_def)
  have gone: "SearchSysCache1 be_mapping_dropped USERMAPPINGOID (userid (key ?bad)) = None"
    by (simp add: be_mapping_dropped_def)
  from reject_incomplete_xact_state_change_outcomes [of ?bad be_mapping_dropped "[]"] insane gone
  obtain err' where
    "pgfdw_reject_incomplete_xact_state_change be_mapping_dropped ?bad [] =
       (Inl err', ?bad\<lparr>gate := (gate ?bad)\<lparr>conn := None\<rparr>\<rparr>, [] @ [Ev_disconnect (gate ?bad)])"
    and "err' = PgError ERRCODE_INTERNAL_ERROR
                  (''cache lookup failed for user mapping '' @ show_nat (unat (userid (key ?bad))))"
    by blast
  then have third: "fst (pgfdw_reject_incomplete_xact_state_change be_mapping_dropped ?bad []) =
      Inl (PgError ERRCODE_INTERNAL_ERROR ''cache lookup failed for user mapping 7'')"
    by (simp add: entry_u7_def show_nat.simps)
  from sane first insane um srv second gone third show ?thesis
    by blast
qed

text \<open>
  C2 as stated fails where the user mapping of the entry is no longer in the catalog:
  the gate is disconnected and cleared, but the error raised is the internal error of
  the failed lookup, not the connection exception that names the server.
\<close>

theorem reject_incomplete_lookup_failure_counterexample:
  "conn (gate (entry_u7\<lparr>changing_xact_state := True\<rparr>)) \<noteq> None \<and>
   changing_xact_state (entry_u7\<lparr>changing_xact_state := True\<rparr>) \<and>
   pgfdw_reject_incomplete_xact_state_change be_mapping_dropped
     (entry_u7\<lparr>changing_xact_state := True\<rparr>) [] =
     (Inl (PgError ERRCODE_INTERNAL_ERROR ''cache lookup failed for user mapping 7''),
      entry_u7\<lparr>changing_xact_state := True, gate := \<lparr>conn = None, methods = 100\<rparr>\<rparr>,
      [Ev_disconnect gate_old]) \<and>
   ERRCODE_INTERNAL_ERROR \<noteq> ERRCODE_CONNECTION_EXCEPTION"
  by (simp add: pgfdw_reject_incomplete_xact_state_change_def entry_u7_def gate_old_def
      be_mapping_dropped_def be_ok_def elog_ERROR_def show_nat.simps)


subsection \<open>The invalidation callback\<close>

text \<open>
  C3. For every notification (cache id, hash value) and every entry of the table: the
  callback returns; an entry with no gate is left as it is; an entry with a gate is
  invalidated afterwards exactly when it was already, or the hash value is 0, or the
  cache is the foreign-server cache and the entry's server hash value is the
  notification's, or the cache is the user-mapping cache and the entry's mapping hash
  value is the notification's.
\<close>

theorem inval_callback_marks_matching:
  assumes "ConnectionHash s = Some tbl"
  shows "\<exists>tbl'. pgfdw_inval_callback cacheid hashvalue s = Some (s\<lparr>ConnectionHash := Some tbl'\<rparr>) \<and>
           length tbl' = length tbl \<and>
           (\<forall>i < length tbl.
              key (tbl' ! i) = key (tbl ! i) \<and>
              (conn (gate (tbl ! i)) = None \<longrightarrow> tbl' ! i = tbl ! i) \<and>
              (conn (gate (tbl ! i)) \<noteq> None \<longrightarrow>
                 invalidated (tbl' ! i) =
                   (invalidated (tbl ! i) \<or> hashvalue = 0 \<or>
                    (cacheid = FOREIGNSERVEROID \<and> server_hashvalue (tbl ! i) = hashvalue) \<or>
                    (cacheid = USERMAPPINGOID \<and> mapping_hashvalue (tbl ! i) = hashvalue))))"
proof (intro exI conjI allI impI)
  show "pgfdw_inval_callback cacheid hashvalue s =
        Some (s\<lparr>ConnectionHash := Some (inval_scan cacheid hashvalue tbl)\<rparr>)"
    using assms by (simp add: pgfdw_inval_callback_def)
  show "length (inval_scan cacheid hashvalue tbl) = length tbl"
    by (rule length_inval_scan)
next
  fix i assume "i < length tbl"
  then show "key (inval_scan cacheid hashvalue tbl ! i) = key (tbl ! i)"
    by (simp add: nth_inval_scan inval_entry_def)
next
  fix i assume "i < length tbl" "conn (gate (tbl ! i)) = None"
  then show "inval_scan cacheid hashvalue tbl ! i = tbl ! i"
    by (simp add: nth_inval_scan inval_entry_def)
next
  fix i assume "i < length tbl" "conn (gate (tbl ! i)) \<noteq> None"
  then show "invalidated (inval_scan cacheid hashvalue tbl ! i) =
                   (invalidated (tbl ! i) \<or> hashvalue = 0 \<or>
                    (cacheid = FOREIGNSERVEROID \<and> server_hashvalue (tbl ! i) = hashvalue) \<or>
                    (cacheid = USERMAPPINGOID \<and> mapping_hashvalue (tbl ! i) = hashvalue))"
    by (auto simp: nth_inval_scan inval_entry_def)
qed

theorem inval_callback_marks_matching_witness:
  "ConnectionHash
     (state_of [entry_u7, entry_u7\<lparr>mapping_hashvalue := 23\<rparr>, torn_down entry_u7]) =
     Some [entry_u7, entry_u7\<lparr>mapping_hashvalue := 23\<rparr>, torn_down entry_u7] \<and>
   (\<exists>tbl'. pgfdw_inval_callback USERMAPPINGOID 22
             (state_of [entry_u7, entry_u7\<lparr>mapping_hashvalue := 23\<rparr>, torn_down entry_u7]) =
            Some ((state_of [entry_u7, entry_u7\<lparr>mapping_hashvalue := 23\<rparr>, torn_down entry_u7])
                    \<lparr>ConnectionHash := Some tbl'\<rparr>) \<and>
          invalidated (tbl' ! 0) \<and> \<not> invalidated (tbl' ! 1) \<and> tbl' ! 2 = torn_down entry_u7)"
proof -
  let ?tbl = "[entry_u7, entry_u7\<lparr>mapping_hashvalue := 23\<rparr>, torn_down entry_u7]"
  have h: "ConnectionHash (state_of ?tbl) = Some ?tbl"
    by (simp add: state_of_def)
  from inval_callback_marks_matching [OF h, of USERMAPPINGOID 22]
  obtain tbl' where call: "pgfdw_inval_callback USERMAPPINGOID 22 (state_of ?tbl) =
        Some ((state_of ?tbl)\<lparr>ConnectionHash := Some tbl'\<rparr>)"
    and each: "\<forall>i < length ?tbl.
              key (tbl' ! i) = key (?tbl ! i) \<and>
              (conn (gate (?tbl ! i)) = None \<longrightarrow> tbl' ! i = ?tbl ! i) \<and>
              (conn (gate (?tbl ! i)) \<noteq> None \<longrightarrow>
                 invalidated (tbl' ! i) =
                   (invalidated (?tbl ! i) \<or> (22::uint32) = 0 \<or>
                    (USERMAPPINGOID = FOREIGNSERVEROID \<and> server_hashvalue (?tbl ! i) = 22) \<or>
                    (USERMAPPINGOID = USERMAPPINGOID \<and> mapping_hashvalue (?tbl ! i) = 22)))"
    by (elim exE conjE)
  from each [rule_format, of 0] have e0: "invalidated (tbl' ! 0)"
    by (simp add: entry_u7_def gate_old_def)
  from each [rule_format, of 1] have e1: "\<not> invalidated (tbl' ! 1)"
    by (simp add: entry_u7_def gate_old_def)
  from each [rule_format, of 2] have e2: "tbl' ! 2 = torn_down entry_u7"
    by (simp add: torn_down_def)
  from h call e0 e1 e2 show ?thesis
    by blast
qed

text \<open>
  C9. For every notification and every entry of the table, the only change the
  invalidation callback makes is to set the entry's \<^verbatim>\<open>invalidated\<close> to true: the
  trace gains no disconnect (it is unchanged), the gate of every entry is the same, and
  so are its transaction depth, its changing flag, its error flag and its two stored
  hash values.
\<close>

theorem inval_callback_only_sets_flag:
  assumes "ConnectionHash s = Some tbl"
  shows "\<exists>tbl'. pgfdw_inval_callback cacheid hashvalue s = Some (s\<lparr>ConnectionHash := Some tbl'\<rparr>) \<and>
           trace (s\<lparr>ConnectionHash := Some tbl'\<rparr>) = trace s \<and>
           length tbl' = length tbl \<and>
           (\<forall>i < length tbl.
              (tbl' ! i = tbl ! i \<or> tbl' ! i = (tbl ! i)\<lparr>invalidated := True\<rparr>) \<and>
              gate (tbl' ! i) = gate (tbl ! i) \<and>
              xact_depth (tbl' ! i) = xact_depth (tbl ! i) \<and>
              changing_xact_state (tbl' ! i) = changing_xact_state (tbl ! i) \<and>
              have_error (tbl' ! i) = have_error (tbl ! i) \<and>
              server_hashvalue (tbl' ! i) = server_hashvalue (tbl ! i) \<and>
              mapping_hashvalue (tbl' ! i) = mapping_hashvalue (tbl ! i))"
proof (intro exI conjI allI impI)
  show "pgfdw_inval_callback cacheid hashvalue s =
        Some (s\<lparr>ConnectionHash := Some (inval_scan cacheid hashvalue tbl)\<rparr>)"
    using assms by (simp add: pgfdw_inval_callback_def)
  show "trace (s\<lparr>ConnectionHash := Some (inval_scan cacheid hashvalue tbl)\<rparr>) = trace s"
    by simp
  show "length (inval_scan cacheid hashvalue tbl) = length tbl"
    by (rule length_inval_scan)
next
  fix i assume i: "i < length tbl"
  let ?e = "tbl ! i" and ?e' = "inval_scan cacheid hashvalue tbl ! i"
  have e': "?e' = inval_entry cacheid hashvalue ?e"
    using i by (rule nth_inval_scan)
  show "?e' = ?e \<or> ?e' = ?e\<lparr>invalidated := True\<rparr>"
    unfolding e' by (simp add: inval_entry_def)
  show "gate ?e' = gate ?e"
    unfolding e' by (simp add: inval_entry_def)
  show "xact_depth ?e' = xact_depth ?e"
    unfolding e' by (simp add: inval_entry_def)
  show "changing_xact_state ?e' = changing_xact_state ?e"
    unfolding e' by (simp add: inval_entry_def)
  show "have_error ?e' = have_error ?e"
    unfolding e' by (simp add: inval_entry_def)
  show "server_hashvalue ?e' = server_hashvalue ?e"
    unfolding e' by (simp add: inval_entry_def)
  show "mapping_hashvalue ?e' = mapping_hashvalue ?e"
    unfolding e' by (simp add: inval_entry_def)
qed

theorem inval_callback_only_sets_flag_witness:
  "ConnectionHash (state_of [entry_u7\<lparr>xact_depth := 2\<rparr>]) = Some [entry_u7\<lparr>xact_depth := 2\<rparr>] \<and>
   (\<exists>tbl'. pgfdw_inval_callback FOREIGNSERVEROID 0 (state_of [entry_u7\<lparr>xact_depth := 2\<rparr>]) =
            Some ((state_of [entry_u7\<lparr>xact_depth := 2\<rparr>])\<lparr>ConnectionHash := Some tbl'\<rparr>) \<and>
          gate (tbl' ! 0) = gate_old \<and> xact_depth (tbl' ! 0) = 2 \<and>
          \<not> changing_xact_state (tbl' ! 0) \<and> server_hashvalue (tbl' ! 0) = 11)"
proof -
  let ?tbl = "[entry_u7\<lparr>xact_depth := 2\<rparr>]"
  have h: "ConnectionHash (state_of ?tbl) = Some ?tbl"
    by (simp add: state_of_def)
  from inval_callback_only_sets_flag [OF h, of FOREIGNSERVEROID 0]
  obtain tbl' where call: "pgfdw_inval_callback FOREIGNSERVEROID 0 (state_of ?tbl) =
        Some ((state_of ?tbl)\<lparr>ConnectionHash := Some tbl'\<rparr>)"
    and each: "\<forall>i < length ?tbl.
              (tbl' ! i = ?tbl ! i \<or> tbl' ! i = (?tbl ! i)\<lparr>invalidated := True\<rparr>) \<and>
              gate (tbl' ! i) = gate (?tbl ! i) \<and>
              xact_depth (tbl' ! i) = xact_depth (?tbl ! i) \<and>
              changing_xact_state (tbl' ! i) = changing_xact_state (?tbl ! i) \<and>
              have_error (tbl' ! i) = have_error (?tbl ! i) \<and>
              server_hashvalue (tbl' ! i) = server_hashvalue (?tbl ! i) \<and>
              mapping_hashvalue (tbl' ! i) = mapping_hashvalue (?tbl ! i)"
    by (elim exE conjE)
  from each [rule_format, of 0]
  have "gate (tbl' ! 0) = gate_old \<and> xact_depth (tbl' ! 0) = 2 \<and>
          \<not> changing_xact_state (tbl' ! 0) \<and> server_hashvalue (tbl' ! 0) = 11"
    by (simp add: entry_u7_def)
  with h call show ?thesis
    by blast
qed

subsection \<open>Deferred teardown\<close>



subsection \<open>Cache hits\<close>

text \<open>
  C5. A second \<^verbatim>\<open>GetConnection\<close> for the same user mapping and intent, with no
  invalidation or transaction boundary in between, should return the gate of the first
  and make no connect, and the cache should hold one live gate for the pair. The code
  does not: the table compares all bytes of the key, and the padding bytes of the key
  are never written. Here the first call runs with padding bytes 0, 0, 0 and the second
  with 1, 0, 0: the second call misses the entry of the first, enters a second entry
  for the same user mapping and intent, connects again and returns another gate, and
  the cache holds two live gates for the pair.
\<close>

theorem stale_key_padding_misses_cached_entry:
  "GetConnection be_ok user_u7 False False state_fresh = (Inr gate_new, state_connected) \<and>
   GetConnection be_other_padding user_u7 False False state_connected =
     (Inr gate_third,
      state_connected
        \<lparr>ConnectionHash :=
           Some [entry_connected,
                 entry_connected
                   \<lparr>key := \<lparr>userid = 7, read = False, padding = [1, 0, 0]\<rparr>,
                     gate := gate_third\<rparr>],
         trace := [Ev_http_connect ''http://B:8123/'', Ev_http_connect ''http://B:8123/'']\<rparr>) \<and>
   gate_third \<noteq> gate_new \<and>
   userid (key_of be_other_padding user_u7 False) = userid (key_of be_ok user_u7 False) \<and>
   read (key_of be_other_padding user_u7 False) = read (key_of be_ok user_u7 False) \<and>
   key_of be_other_padding user_u7 False \<noteq> key_of be_ok user_u7 False"
  by (simp add: eval_defs)

subsection \<open>Failure of the connect\<close>

text \<open>
  C7. If \<^verbatim>\<open>GetConnection\<close> reaches the factory and the factory fails, the error is the
  result of \<^verbatim>\<open>GetConnection\<close>, and the cache entry of the key is present with no handle.
  A later call for the same user mapping and intent then goes to the factory again,
  whether it finds that entry (the bytes of its key are the same) or enters a new one
  (no entry has the bytes of its key): its result is the result of that connect
  attempt, and the connect attempt is all it does on a transport.
\<close>

theorem connect_failure_leaves_empty_entry:
  assumes "needs_connect (entry_at_lookup be s (key_of be user rd))"
    and "GetForeignServer be (um_serverid user) = Inr server"
    and "fst (clickhouse_connect be server user []) = Inl err"
    and "GetConnection be user wp rd s = (res, s1)"
  shows "res = Inl err \<and>
         (\<exists>e1. cache_entry s1 (key_of be user rd) = Some e1 \<and> conn (gate e1) = None) \<and>
         (\<forall>be2 wp2 server2.
            GetForeignServer be2 (um_serverid user) = Inr server2 \<and>
            (key_of be2 user rd = key_of be user rd \<or>
             cache_entry s1 (key_of be2 user rd) = None) \<longrightarrow>
            fst (GetConnection be2 user wp2 rd s1) = fst (clickhouse_connect be2 server2 user []) \<and>
            new_events s1 (snd (GetConnection be2 user wp2 rd s1)) =
              snd (clickhouse_connect be2 server2 user []))"
proof -
  let ?k = "key_of be user rd"
  let ?e1 = "reset_entry be user rd server (entry_at_lookup be s ?k)"
  note first = GetConnection_connects [OF assms(1,2,4)]
  have res: "res = Inl err"
    using first(1) assms(3) by simp
  have e1: "cache_entry s1 ?k = Some ?e1"
    using first(2) res by simp
  have empty: "conn (gate ?e1) = None"
    by (simp add: reset_entry_def)
  have retry: "fst (GetConnection be2 user wp2 rd s1) = fst (clickhouse_connect be2 server2 user []) \<and>
      new_events s1 (snd (GetConnection be2 user wp2 rd s1)) =
        snd (clickhouse_connect be2 server2 user [])"
    if srv: "GetForeignServer be2 (um_serverid user) = Inr server2 \<and>
            (key_of be2 user rd = key_of be user rd \<or>
             cache_entry s1 (key_of be2 user rd) = None)" for be2 wp2 server2
  proof -
    let ?k2 = "key_of be2 user rd"
    have absent: "conn (gate (entry_at_lookup be2 s1 ?k2)) = None"
    proof (cases "cache_entry s1 ?k2")
      case None
      then show ?thesis
        by (simp add: entry_at_lookup_def)
    next
      case (Some e2)
      with srv have "?k2 = ?k" by simp
      with e1 empty show ?thesis
        by (simp add: entry_at_lookup_cached)
    qed
    then have need: "needs_connect (entry_at_lookup be2 s1 ?k2)"
      by (simp add: needs_connect_def)
    obtain res2 s2 where call: "GetConnection be2 user wp2 rd s1 = (res2, s2)"
      by (cases "GetConnection be2 user wp2 rd s1")
    from srv have srv2: "GetForeignServer be2 (um_serverid user) = Inr server2"
      by simp
    from GetConnection_connects(1,3) [OF need srv2 call] call
    show ?thesis
      by (simp add: teardown_events_def absent)
  qed
  from res e1 empty retry show ?thesis
    by blast
qed

theorem connect_failure_leaves_empty_entry_witness:
  "needs_connect (entry_at_lookup be_down state_fresh (key_of be_down user_u7 False)) \<and>
   GetForeignServer be_down (um_serverid user_u7) = Inr server_ch1 \<and>
   fst (clickhouse_connect be_down server_ch1 user_u7 []) =
     Inl (PgError (ERRCODE_OTHER ''08001'') ''could not connect to server'') \<and>
   GetConnection be_down user_u7 False False state_fresh =
     (Inl (PgError (ERRCODE_OTHER ''08001'') ''could not connect to server''),
      (state_of [entry_connected\<lparr>gate := \<lparr>conn = None, methods = 0\<rparr>\<rparr>])
        \<lparr>xact_got_connection := True, trace := [Ev_http_connect ''http://B:8123/'']\<rparr>) \<and>
   GetForeignServer be_ok (um_serverid user_u7) = Inr server_ch1 \<and>
   key_of be_ok user_u7 False = key_of be_down user_u7 False \<and>
   fst (GetConnection be_ok user_u7 True False
          ((state_of [entry_connected\<lparr>gate := \<lparr>conn = None, methods = 0\<rparr>\<rparr>])
             \<lparr>xact_got_connection := True, trace := [Ev_http_connect ''http://B:8123/'']\<rparr>)) =
     Inr gate_new"
proof -
  let ?err = "PgError (ERRCODE_OTHER ''08001'') ''could not connect to server''"
  let ?s1 = "(state_of [entry_connected\<lparr>gate := \<lparr>conn = None, methods = 0\<rparr>\<rparr>])
        \<lparr>xact_got_connection := True, trace := [Ev_http_connect ''http://B:8123/'']\<rparr>"
  have h1: "needs_connect (entry_at_lookup be_down state_fresh (key_of be_down user_u7 False))"
    by (simp add: needs_connect_def entry_at_lookup_def cache_entry_def eval_defs)
  have h2: "GetForeignServer be_down (um_serverid user_u7) = Inr server_ch1"
    by (simp add: be_down_def be_ok_def user_u7_def)
  have h3: "fst (clickhouse_connect be_down server_ch1 user_u7 []) = Inl ?err"
    by (simp add: eval_defs)
  have h4: "GetConnection be_down user_u7 False False state_fresh = (Inl ?err, ?s1)"
    by (simp add: eval_defs)
  have h5: "GetForeignServer be_ok (um_serverid user_u7) = Inr server_ch1"
    by (simp add: be_ok_def user_u7_def)
  have h6: "key_of be_ok user_u7 False = key_of be_down user_u7 False"
    by (simp add: key_of_def be_down_def)
  from connect_failure_leaves_empty_entry [OF h1 h2 h3 h4] h5 h6
  have "fst (GetConnection be_ok user_u7 True False ?s1) =
      fst (clickhouse_connect be_ok server_ch1 user_u7 [])"
    by blast
  also have "\<dots> = Inr gate_new"
    by (simp add: eval_defs)
  finally have retry: "fst (GetConnection be_ok user_u7 True False ?s1) = Inr gate_new" .
  from h1 h2 h3 h4 h5 h6 retry show ?thesis
    by blast
qed

subsection \<open>An unknown driver\<close>

text \<open>
  C8 (as amended). When the resolved driver is neither "http" nor "binary", the factory
  raises the error "invalid ClickHouse connection driver" before it calls any transport
  and without changing anything. A \<^verbatim>\<open>GetConnection\<close> that reaches the factory fails
  with that error and makes no connect; what it did before reaching the factory stays:
  a stale gate is disconnected, and the entry is present with no handle, its transient
  fields reset and the current hash values recorded.
\<close>

theorem unknown_driver_fails_before_any_connect:
  assumes "fst (resolve_options server user) \<noteq> ''http''"
    and "fst (resolve_options server user) \<noteq> ''binary''"
  shows "clickhouse_connect be server user tr =
           (Inl (elog_ERROR ''invalid ClickHouse connection driver''), tr) \<and>
         (needs_connect (entry_at_lookup be s (key_of be user rd)) \<and>
          GetForeignServer be (um_serverid user) = Inr server \<and>
          GetConnection be user wp rd s = (res, s1) \<longrightarrow>
            res = Inl (elog_ERROR ''invalid ClickHouse connection driver'') \<and>
            new_events s s1 =
              (if conn (gate (entry_at_lookup be s (key_of be user rd))) = None then []
               else [Ev_disconnect (gate (entry_at_lookup be s (key_of be user rd)))]) \<and>
            (\<exists>e1. cache_entry s1 (key_of be user rd) = Some e1 \<and>
                  conn (gate e1) = None \<and> xact_depth e1 = 0 \<and> \<not> have_error e1 \<and>
                  \<not> changing_xact_state e1 \<and> \<not> invalidated e1 \<and>
                  server_hashvalue e1 =
                    GetSysCacheHashValue1 be FOREIGNSERVEROID (fs_serverid server) \<and>
                  mapping_hashvalue e1 =
                    GetSysCacheHashValue1 be USERMAPPINGOID (um_umid user)))"
proof (intro conjI impI)
  show factory: "clickhouse_connect be server user tr =
      (Inl (elog_ERROR ''invalid ClickHouse connection driver''), tr)" for tr
  proof -
    obtain driver details where ro: "resolve_options server user = (driver, details)"
      by (cases "resolve_options server user")
    with assms show "clickhouse_connect be server user tr =
        (Inl (elog_ERROR ''invalid ClickHouse connection driver''), tr)"
      by (simp add: clickhouse_connect_def)
  qed
  assume reach: "needs_connect (entry_at_lookup be s (key_of be user rd)) \<and>
          GetForeignServer be (um_serverid user) = Inr server \<and>
          GetConnection be user wp rd s = (res, s1)"
  let ?e = "entry_at_lookup be s (key_of be user rd)"
  note call = GetConnection_connects [of be s user rd server wp res s1]
  from reach call(1) factory [of "[]"]
  show res: "res = Inl (elog_ERROR ''invalid ClickHouse connection driver'')"
    by simp
  from reach call(3) factory [of "[]"]
  show "new_events s s1 = (if conn (gate ?e) = None then [] else [Ev_disconnect (gate ?e)])"
    by (simp add: teardown_events_def)
  from reach call(2) res
  have "cache_entry s1 (key_of be user rd) = Some (reset_entry be user rd server ?e)"
    by simp
  then show "\<exists>e1. cache_entry s1 (key_of be user rd) = Some e1 \<and>
                  conn (gate e1) = None \<and> xact_depth e1 = 0 \<and> \<not> have_error e1 \<and>
                  \<not> changing_xact_state e1 \<and> \<not> invalidated e1 \<and>
                  server_hashvalue e1 =
                    GetSysCacheHashValue1 be FOREIGNSERVEROID (fs_serverid server) \<and>
                  mapping_hashvalue e1 =
                    GetSysCacheHashValue1 be USERMAPPINGOID (um_umid user)"
    by (simp add: reset_entry_def)
qed

theorem unknown_driver_fails_before_any_connect_witness:
  "fst (resolve_options server_ch1 user_baddriver) = ''odbc'' \<and>
   clickhouse_connect be_ok server_ch1 user_baddriver [] =
     (Inl (elog_ERROR ''invalid ClickHouse connection driver''), []) \<and>
   needs_connect (entry_at_lookup be_ok state_fresh (key_of be_ok user_baddriver False)) \<and>
   GetForeignServer be_ok (um_serverid user_baddriver) = Inr server_ch1 \<and>
   GetConnection be_ok user_baddriver False False state_fresh =
     (Inl (elog_ERROR ''invalid ClickHouse connection driver''),
      (state_of [entry_connected\<lparr>gate := \<lparr>conn = None, methods = 0\<rparr>\<rparr>])
        \<lparr>xact_got_connection := True\<rparr>) \<and>
   new_events state_fresh
     ((state_of [entry_connected\<lparr>gate := \<lparr>conn = None, methods = 0\<rparr>\<rparr>])
        \<lparr>xact_got_connection := True\<rparr>) = []"
proof -
  let ?s1 = "(state_of [entry_connected\<lparr>gate := \<lparr>conn = None, methods = 0\<rparr>\<rparr>])
        \<lparr>xact_got_connection := True\<rparr>"
  have drv: "fst (resolve_options server_ch1 user_baddriver) = ''odbc''"
    by (simp add: eval_defs)
  then have h1: "fst (resolve_options server_ch1 user_baddriver) \<noteq> ''http''"
    and h2: "fst (resolve_options server_ch1 user_baddriver) \<noteq> ''binary''"
    by simp_all
  have h3: "needs_connect (entry_at_lookup be_ok state_fresh (key_of be_ok user_baddriver False))"
    by (simp add: needs_connect_def entry_at_lookup_def cache_entry_def eval_defs)
  have h4: "GetForeignServer be_ok (um_serverid user_baddriver) = Inr server_ch1"
    by (simp add: be_ok_def user_baddriver_def)
  have h5: "GetConnection be_ok user_baddriver False False state_fresh =
     (Inl (elog_ERROR ''invalid ClickHouse connection driver''), ?s1)"
    by (simp add: eval_defs)
  note inst = unknown_driver_fails_before_any_connect
    [OF h1 h2, of be_ok "[]" state_fresh False False "Inl (elog_ERROR ''invalid ClickHouse connection driver'')" ?s1]
  from inst have factory: "clickhouse_connect be_ok server_ch1 user_baddriver [] =
     (Inl (elog_ERROR ''invalid ClickHouse connection driver''), [])"
    by blast
  from inst h3 h4 h5 have "new_events state_fresh ?s1 =
      (if conn (gate (entry_at_lookup be_ok state_fresh (key_of be_ok user_baddriver False))) = None
       then []
       else [Ev_disconnect (gate (entry_at_lookup be_ok state_fresh (key_of be_ok user_baddriver False)))])"
    by blast
  then have new: "new_events state_fresh ?s1 = []"
    by (simp add: entry_at_lookup_def cache_entry_def eval_defs)
  from drv factory h3 h4 h5 new show ?thesis
    by blast
qed

text \<open>
  C8 as stated fails: the call that ends in the configuration error has by then torn
  down the invalidated entry's gate and reset the entry, so the entry is not what it was
  before the call.
\<close>

theorem unknown_driver_mutates_entry_counterexample:
  "fst (resolve_options server_ch1 user_baddriver) = ''odbc'' \<and>
   cache_entry (state_of [entry_u7\<lparr>invalidated := True\<rparr>]) (key_of be_ok user_baddriver False) =
     Some (entry_u7\<lparr>invalidated := True\<rparr>) \<and>
   GetConnection be_ok user_baddriver False False (state_of [entry_u7\<lparr>invalidated := True\<rparr>]) =
     (Inl (PgError ERRCODE_INTERNAL_ERROR ''invalid ClickHouse connection driver''),
      (state_of [torn_down entry_u7])
        \<lparr>xact_got_connection := True, trace := [Ev_disconnect gate_old]\<rparr>) \<and>
   cache_entry
     ((state_of [torn_down entry_u7])\<lparr>xact_got_connection := True, trace := [Ev_disconnect gate_old]\<rparr>)
     (key_of be_ok user_baddriver False) = Some (torn_down entry_u7) \<and>
   torn_down entry_u7 \<noteq> entry_u7\<lparr>invalidated := True\<rparr>"
  by (simp add: eval_defs torn_down_def)

subsection \<open>Resets before the connect\<close>

text \<open>
  C10 (as amended). Whenever \<^verbatim>\<open>GetConnection\<close> finds the entry's handle absent (the
  entry is new, has none, or had it torn down at line 154) and the lookup of the server
  at line 174 succeeds, the entry ends
  with depth 0, the error, changing and invalidated flags false, the intent and the
  current server and mapping hash values recorded, whatever the connect attempt gives:
  with the new gate if it succeeds, and with no handle if it fails. So after a failed
  connect a previously invalidated entry reads invalidated = false with fresh hash
  values, though no new gate was installed.
\<close>

theorem resets_persist_when_connect_fails:
  assumes "needs_connect (entry_at_lookup be s (key_of be user rd))"
    and "GetForeignServer be (um_serverid user) = Inr server"
    and "GetConnection be user wp rd s = (res, s1)"
  shows "res = fst (clickhouse_connect be server user []) \<and>
         (\<exists>e1. cache_entry s1 (key_of be user rd) = Some e1 \<and>
               xact_depth e1 = 0 \<and> \<not> have_error e1 \<and> \<not> changing_xact_state e1 \<and>
               \<not> invalidated e1 \<and> entry_read e1 = rd \<and>
               server_hashvalue e1 =
                 GetSysCacheHashValue1 be FOREIGNSERVEROID (fs_serverid server) \<and>
               mapping_hashvalue e1 =
                 GetSysCacheHashValue1 be USERMAPPINGOID (um_umid user) \<and>
               (case res of
                  Inl err \<Rightarrow>
                    gate e1 = (gate (entry_at_lookup be s (key_of be user rd)))\<lparr>conn := None\<rparr>
                | Inr g \<Rightarrow> gate e1 = g))"
proof -
  let ?k = "key_of be user rd"
  let ?e = "entry_at_lookup be s ?k"
  note call = GetConnection_connects [OF assms]
  have r: "res = fst (clickhouse_connect be server user [])"
    by (rule call(1))
  have e: "\<exists>e1. cache_entry s1 ?k = Some e1 \<and>
               xact_depth e1 = 0 \<and> \<not> have_error e1 \<and> \<not> changing_xact_state e1 \<and>
               \<not> invalidated e1 \<and> entry_read e1 = rd \<and>
               server_hashvalue e1 =
                 GetSysCacheHashValue1 be FOREIGNSERVEROID (fs_serverid server) \<and>
               mapping_hashvalue e1 =
                 GetSysCacheHashValue1 be USERMAPPINGOID (um_umid user) \<and>
               (case res of
                  Inl err \<Rightarrow> gate e1 = (gate ?e)\<lparr>conn := None\<rparr>
                | Inr g \<Rightarrow> gate e1 = g)"
  proof (cases res)
    case (Inl err)
    with call(2) have e1: "cache_entry s1 ?k = Some (reset_entry be user rd server ?e)"
      by simp
    show ?thesis
      unfolding Inl e1 by (simp add: reset_entry_def)
  next
    case (Inr g)
    with call(2) have e1:
      "cache_entry s1 ?k = Some ((reset_entry be user rd server ?e)\<lparr>gate := g\<rparr>)"
      by simp
    show ?thesis
      unfolding Inr e1 by (simp add: reset_entry_def)
  qed
  from r e show ?thesis
    by (rule conjI)
qed

theorem resets_persist_when_connect_fails_witness:
  "needs_connect
     (entry_at_lookup be_down (state_of [entry_u7\<lparr>invalidated := True, server_hashvalue := 5\<rparr>])
        (key_of be_down user_u7 False)) \<and>
   GetForeignServer be_down (um_serverid user_u7) = Inr server_ch1 \<and>
   GetConnection be_down user_u7 False False
     (state_of [entry_u7\<lparr>invalidated := True, server_hashvalue := 5\<rparr>]) =
     (Inl (PgError (ERRCODE_OTHER ''08001'') ''could not connect to server''),
      (state_of [torn_down entry_u7])
        \<lparr>xact_got_connection := True,
          trace := [Ev_disconnect gate_old, Ev_http_connect ''http://B:8123/'']\<rparr>) \<and>
   (\<exists>e1. cache_entry
           ((state_of [torn_down entry_u7])
              \<lparr>xact_got_connection := True,
                trace := [Ev_disconnect gate_old, Ev_http_connect ''http://B:8123/'']\<rparr>)
           (key_of be_down user_u7 False) = Some e1 \<and>
         \<not> invalidated e1 \<and> server_hashvalue e1 = 11 \<and> conn (gate e1) = None)"
proof -
  let ?s = "state_of [entry_u7\<lparr>invalidated := True, server_hashvalue := 5\<rparr>]"
  let ?err = "PgError (ERRCODE_OTHER ''08001'') ''could not connect to server''"
  let ?s1 = "(state_of [torn_down entry_u7])
        \<lparr>xact_got_connection := True,
          trace := [Ev_disconnect gate_old, Ev_http_connect ''http://B:8123/'']\<rparr>"
  have h1: "needs_connect (entry_at_lookup be_down ?s (key_of be_down user_u7 False))"
    by (simp add: needs_connect_def entry_at_lookup_def cache_entry_def key_of_def eval_defs)
  have h2: "GetForeignServer be_down (um_serverid user_u7) = Inr server_ch1"
    by (simp add: be_down_def be_ok_def user_u7_def)
  have h3: "GetConnection be_down user_u7 False False ?s = (Inl ?err, ?s1)"
    by (simp add: eval_defs torn_down_def)
  from resets_persist_when_connect_fails [OF h1 h2 h3]
  obtain e1 where e1: "cache_entry ?s1 (key_of be_down user_u7 False) = Some e1"
    and inv: "\<not> invalidated e1"
    and sh: "server_hashvalue e1 = GetSysCacheHashValue1 be_down FOREIGNSERVEROID (fs_serverid server_ch1)"
    and g: "gate e1 = (gate (entry_at_lookup be_down ?s (key_of be_down user_u7 False)))\<lparr>conn := None\<rparr>"
    by auto
  from sh have sh': "server_hashvalue e1 = 11"
    by (simp add: be_down_def be_ok_def)
  from g have g': "conn (gate e1) = None"
    by simp
  from h1 h2 h3 e1 inv sh' g' show ?thesis
    by blast
qed

text \<open>
  C10 as stated fails where the lookup of the server at line 174 raises: the call has
  found the handle absent (it tore the invalidated gate down at line 154), but it leaves
  before the resets, so the entry still reads invalidated = true and keeps the hash
  values it had, not the current ones.
\<close>

theorem server_lookup_failure_skips_resets_counterexample:
  "reachable state_invalidated \<and>
   GetConnection be_server_dropped user_u7 False False state_invalidated =
     (Inl (PgError ERRCODE_INTERNAL_ERROR ''cache lookup failed for foreign server''),
      (state_of [torn_down (entry_connected\<lparr>invalidated := True\<rparr>)])
        \<lparr>xact_got_connection := True,
          trace := [Ev_http_connect ''http://B:8123/'', Ev_disconnect gate_new]\<rparr>) \<and>
   conn (gate (torn_down (entry_connected\<lparr>invalidated := True\<rparr>))) = None \<and>
   invalidated (torn_down (entry_connected\<lparr>invalidated := True\<rparr>)) \<and>
   server_hashvalue (torn_down (entry_connected\<lparr>invalidated := True\<rparr>)) = 11 \<and>
   GetSysCacheHashValue1 be_server_dropped FOREIGNSERVEROID 3 = 99 \<and>
   mapping_hashvalue (torn_down (entry_connected\<lparr>invalidated := True\<rparr>)) = 22 \<and>
   GetSysCacheHashValue1 be_server_dropped USERMAPPINGOID (um_umid user_u7) = 99"
proof -
  have "GetConnection be_server_dropped user_u7 False False state_invalidated =
     (Inl (PgError ERRCODE_INTERNAL_ERROR ''cache lookup failed for foreign server''),
      (state_of [torn_down (entry_connected\<lparr>invalidated := True\<rparr>)])
        \<lparr>xact_got_connection := True,
          trace := [Ev_http_connect ''http://B:8123/'', Ev_disconnect gate_new]\<rparr>)"
    by (simp add: eval_defs torn_down_def)
  with reachable_state_invalidated show ?thesis
    by (simp add: eval_defs torn_down_def)
qed

subsection \<open>The connection descriptor\<close>

text \<open>
  C6. The descriptor is built from the server's options, then the user mapping's: for
  each of driver, host, port and database name the resolved value is the user mapping's
  if it names the field, else the server's if it names the field, else the default
  (driver "http", host "127.0.0.1", port 8123, database "default"); the user name and
  the password likewise, absent when neither names them.
\<close>

theorem user_options_override_server_options:
  "fst (resolve_options server user) =
     or_default ''http''
       (user_wins (last_setting driver_of (fs_options server))
                  (last_setting driver_of (um_options user))) \<and>
   host (snd (resolve_options server user)) =
     or_default ''127.0.0.1''
       (user_wins (last_setting host_of (fs_options server))
                  (last_setting host_of (um_options user))) \<and>
   port (snd (resolve_options server user)) =
     or_default 8123
       (user_wins (last_setting port_of (fs_options server))
                  (last_setting port_of (um_options user))) \<and>
   dbname (snd (resolve_options server user)) =
     or_default ''default''
       (user_wins (last_setting dbname_of (fs_options server))
                  (last_setting dbname_of (um_options user))) \<and>
   username (snd (resolve_options server user)) =
     user_wins (last_setting username_of (fs_options server))
               (last_setting username_of (um_options user)) \<and>
   password (snd (resolve_options server user)) =
     user_wins (last_setting password_of (fs_options server))
               (last_setting password_of (um_options user))"
proof (intro conjI)
  show "fst (resolve_options server user) =
     or_default ''http''
       (user_wins (last_setting driver_of (fs_options server))
                  (last_setting driver_of (um_options user)))"
    by (simp add: resolve_options_def extract_driver or_default_twice default_driver_def)
  show "host (snd (resolve_options server user)) =
     or_default ''127.0.0.1''
       (user_wins (last_setting host_of (fs_options server))
                  (last_setting host_of (um_options user)))"
    by (simp add: resolve_options_def extract_host or_default_twice default_details_def)
  show "port (snd (resolve_options server user)) =
     or_default 8123
       (user_wins (last_setting port_of (fs_options server))
                  (last_setting port_of (um_options user)))"
    by (simp add: resolve_options_def extract_port or_default_twice default_details_def)
  show "dbname (snd (resolve_options server user)) =
     or_default ''default''
       (user_wins (last_setting dbname_of (fs_options server))
                  (last_setting dbname_of (um_options user)))"
    by (simp add: resolve_options_def extract_dbname or_default_twice default_details_def)
  show "username (snd (resolve_options server user)) =
     user_wins (last_setting username_of (fs_options server))
               (last_setting username_of (um_options user))"
    by (simp add: resolve_options_def extract_username user_wins_None default_details_def)
  show "password (snd (resolve_options server user)) =
     user_wins (last_setting password_of (fs_options server))
               (last_setting password_of (um_options user))"
    by (simp add: resolve_options_def extract_password user_wins_None default_details_def)
qed

theorem user_options_override_server_options_witness:
  "last_setting host_of (fs_options server_ch1) = Some ''A'' \<and>
   last_setting host_of (um_options user_u7) = Some ''B'' \<and>
   host (snd (resolve_options server_ch1 user_u7)) = ''B'' \<and>
   last_setting port_of (fs_options server_ch1) = None \<and>
   last_setting port_of (um_options user_u7) = None \<and>
   port (snd (resolve_options server_ch1 user_u7)) = 8123"
proof -
  note inst = user_options_override_server_options [of server_ch1 user_u7]
  have a: "last_setting host_of (fs_options server_ch1) = Some ''A''"
    by (simp add: server_ch1_def host_of_def)
  have b: "last_setting host_of (um_options user_u7) = Some ''B''"
    by (simp add: user_u7_def host_of_def)
  have c: "last_setting port_of (fs_options server_ch1) = None"
    by (simp add: server_ch1_def port_of_def)
  have d: "last_setting port_of (um_options user_u7) = None"
    by (simp add: user_u7_def port_of_def)
  from inst have "host (snd (resolve_options server_ch1 user_u7)) =
     or_default ''127.0.0.1''
       (user_wins (last_setting host_of (fs_options server_ch1))
                  (last_setting host_of (um_options user_u7)))"
    by (elim conjE)
  then have h: "host (snd (resolve_options server_ch1 user_u7)) = ''B''"
    by (simp add: a b or_default_def user_wins_def)
  from inst have "port (snd (resolve_options server_ch1 user_u7)) =
     or_default 8123
       (user_wins (last_setting port_of (fs_options server_ch1))
                  (last_setting port_of (um_options user_u7)))"
    by (elim conjE)
  then have p: "port (snd (resolve_options server_ch1 user_u7)) = 8123"
    by (simp add: c d or_default_def user_wins_def)
  from a b h c d p show ?thesis
    by (intro conjI)
qed

end
